theory Spec2Isabelle
  imports Complex_Main "HOL-Library.Product_Lexorder" "HOL-Library.AList" "HOL-Library.Log_Nat"
begin

section \<open>Data model (src/models/data\_models.py)\<close>

text \<open>
  The enumerations are closed datatypes; \<open>value\<close> of a \<open>str\<close>-valued enum member is
  given by a function into strings. A Python float is the real number it stands for, and
  every arithmetic operation on floats is rounded as the section on arithmetic says;
  datetimes are integers counting microseconds (the resolution of \<open>datetime\<close> and
  \<open>timedelta\<close>).
\<close>

datatype ValidationStatus = PENDING | VALIDATED | NEEDS_REVIEW | URGENT | ERROR

datatype DiscrepancyType =
    PHONE_MISMATCH | ADDRESS_MISMATCH | NAME_MISMATCH | SPECIALTY_MISMATCH
  | LICENSE_ISSUE | NPI_INVALID | STATUS_CHANGE | EMAIL_INVALID
  | FAX_MISMATCH | WEBSITE_ISSUE | HOURS_MISMATCH

datatype Priority = HIGH | MEDIUM | LOW

datatype DataSource =
  NPI_REGISTRY | GOOGLE_PLACES | PRACTICE_WEBSITE | STATE_LICENSE | PDF_DOCUMENT

fun type_value :: "DiscrepancyType \<Rightarrow> string" where
  "type_value PHONE_MISMATCH = ''phone_mismatch''"
| "type_value ADDRESS_MISMATCH = ''address_mismatch''"
| "type_value NAME_MISMATCH = ''name_mismatch''"
| "type_value SPECIALTY_MISMATCH = ''specialty_mismatch''"
| "type_value LICENSE_ISSUE = ''license_issue''"
| "type_value NPI_INVALID = ''npi_invalid''"
| "type_value STATUS_CHANGE = ''status_change''"
| "type_value EMAIL_INVALID = ''email_invalid''"
| "type_value FAX_MISMATCH = ''fax_mismatch''"
| "type_value WEBSITE_ISSUE = ''website_issue''"
| "type_value HOURS_MISMATCH = ''hours_mismatch''"

fun source_value :: "DataSource \<Rightarrow> string" where
  "source_value NPI_REGISTRY = ''npi_registry''"
| "source_value GOOGLE_PLACES = ''google_places''"
| "source_value PRACTICE_WEBSITE = ''practice_website''"
| "source_value STATE_LICENSE = ''state_license''"
| "source_value PDF_DOCUMENT = ''pdf_document''"

text \<open>
  \<open>Provider\<close>: the pipeline reads only the identifier of a provider (and its name for
  the human-readable summaries, which are not modelled).
\<close>

record Provider =
  prov_id :: string
  npi :: string

text \<open>\<open>Discrepancy\<close>, field for field; \<open>id\<close> is called \<open>disc_id\<close>.\<close>

record Discrepancy =
  disc_id :: string
  provider_id :: string
  type :: DiscrepancyType
  field_name :: string
  current_value :: string
  validated_value :: string
  source :: DataSource
  priority :: Priority
  confidence :: real
  resolved :: bool
  resolution_notes :: "string option"
  resolved_at :: "int option"
  resolved_by :: "string option"
  detected_at :: int

text \<open>
  \<open>SourceValidation\<close>; the fields whose names \<open>Discrepancy\<close> already uses carry the
  prefix \<open>sv_\<close>.
\<close>

record SourceValidation =
  sv_source :: DataSource
  success :: bool
  sv_confidence :: real
  data :: "(string \<times> string) list"
  sv_discrepancies :: "Discrepancy list"
  error_message :: "string option"
  timestamp :: int

text \<open>
  \<open>ValidationResult\<close>. The fields \<open>id\<close> (a random UUID), \<open>processing_time_ms\<close>,
  \<open>validated_at\<close> (clock readings) and \<open>summary\<close> (formatted text) are left out: no
  modelled function reads them.
\<close>

record ValidationResult =
  vr_provider_id :: string
  status :: ValidationStatus
  overall_confidence :: real
  source_validations :: "SourceValidation list"
  discrepancies :: "Discrepancy list"
  total_discrepancies :: nat
  auto_updated :: bool
  needs_review :: bool
  urgent_review :: bool

section \<open>Double-precision arithmetic\<close>

text \<open>
  A Python float is an IEEE 754 binary64 number. A float literal is the double nearest to
  the decimal written, and \<open>+\<close>, \<open>-\<close>, \<open>*\<close> and \<open>/\<close> return the double nearest to the
  exact result, ties going to the even significand. \<open>fl\<close> is this rounding: \<open>expo x\<close>
  is the exponent \<open>e\<close> with \<open>2^e \<le> |x| < 2^(e+1)\<close>, doubles of that size are the multiples
  of \<open>2^(e-52)\<close>, and below \<open>2^(-1022)\<close> (the subnormal range) the multiples of
  \<open>2^(-1074)\<close>. Comparisons, \<open>max\<close> and \<open>min\<close> are exact. Overflow to infinity and
  not-a-number are outside the model: with confidences between 0 and 100, as the data
  model has them, no intermediate result comes near the largest double.
\<close>

definition expo :: "real \<Rightarrow> int" where
  "expo x = (if 1 \<le> \<bar>x\<bar> then bitlen \<lfloor>\<bar>x\<bar>\<rfloor> - 1 else - bitlen (\<lceil>1 / \<bar>x\<bar>\<rceil> - 1))"

definition round_even :: "real \<Rightarrow> int" where
  "round_even y =
     (let n = \<lfloor>y\<rfloor>; r = y - of_int n in
      if r < 1 / 2 then n else if 1 / 2 < r then n + 1 else if even n then n else n + 1)"

definition fl :: "real \<Rightarrow> real" where
  "fl x = (if x = 0 then 0
           else (let q = 2 powi (max (expo x) (- 1022) - 52)
                 in of_int (round_even (x / q)) * q))"

definition fadd :: "real \<Rightarrow> real \<Rightarrow> real" where
  "fadd x y = fl (x + y)"

definition fsub :: "real \<Rightarrow> real \<Rightarrow> real" where
  "fsub x y = fl (x - y)"

definition fmul :: "real \<Rightarrow> real \<Rightarrow> real" where
  "fmul x y = fl (x * y)"

definition fdiv :: "real \<Rightarrow> real \<Rightarrow> real" where
  "fdiv x y = fl (x / y)"

section \<open>Configuration (src/config.py)\<close>

text \<open>The weights are float literals, the thresholds integers.\<close>

definition CONFIDENCE_THRESHOLDS :: "(string \<times> real) list" where
  "CONFIDENCE_THRESHOLDS = [(''auto_update'', 80), (''needs_review'', 60), (''urgent'', 0)]"

definition SOURCE_WEIGHTS :: "(string \<times> real) list" where
  "SOURCE_WEIGHTS =
     [(''npi_registry'', fl 0.35), (''google_places'', fl 0.25), (''practice_website'', fl 0.20),
      (''state_license'', fl 0.15), (''pdf_document'', fl 0.05)]"


section \<open>Confidence calculator (src/services/confidence\_calculator.py)\<close>

text \<open>\<open>self.thresholds[k]\<close> for the keys the calculator uses, all present in the table.\<close>

definition thresholds :: "string \<Rightarrow> real" where
  "thresholds k = the (map_of CONFIDENCE_THRESHOLDS k)"

text \<open>\<open>self.source_weights.get(name, 0.1)\<close>.\<close>

definition source_weights_get :: "string \<Rightarrow> real" where
  "source_weights_get name = (case map_of SOURCE_WEIGHTS name of Some w \<Rightarrow> w | None \<Rightarrow> fl 0.1)"

definition timedelta_hours :: "int \<Rightarrow> int" where
  "timedelta_hours h = h * 3600000000"

definition timedelta_days :: "int \<Rightarrow> int" where
  "timedelta_days d = d * 86400000000"

text \<open>
  \<open>_calculate_freshness_factor\<close>: the reading of \<open>datetime.now()\<close> taken inside the
  function is its first argument.
\<close>

definition calculate_freshness_factor :: "int \<Rightarrow> int \<Rightarrow> real" where
  "calculate_freshness_factor now ts =
     (let age = now - ts in
      if age < timedelta_hours 24 then fl 1.05
      else if age < timedelta_days 7 then fl 1.02
      else if age < timedelta_days 30 then 1.0
      else if age < timedelta_days 90 then fl 0.95
      else fl 0.90)"

text \<open>
  The loop of \<open>calculate_overall_confidence\<close>. The state is the pair
  \<open>(total_weight, weighted_confidence)\<close>; \<open>clock i\<close> is the reading of the clock while
  the validation at position \<open>i\<close> of the list is processed. Every product, sum,
  difference and quotient is the rounded one.
\<close>

fun confidence_loop ::
  "(nat \<Rightarrow> int) \<Rightarrow> nat \<Rightarrow> SourceValidation list \<Rightarrow> real \<times> real \<Rightarrow> real \<times> real" where
  "confidence_loop clock i [] (total_weight, weighted_confidence) =
     (total_weight, weighted_confidence)"
| "confidence_loop clock i (validation # rest) (total_weight, weighted_confidence) =
     (let weight = source_weights_get (source_value (sv_source validation)) in
      if success validation then
        (let freshness = calculate_freshness_factor (clock i) (timestamp validation);
             adjusted_confidence = fmul (sv_confidence validation) freshness
         in confidence_loop clock (Suc i) rest
              (fadd total_weight weight,
               fadd weighted_confidence (fmul weight adjusted_confidence)))
      else
        confidence_loop clock (Suc i) rest
          (total_weight, fsub weighted_confidence (fmul weight 10)))"

definition calculate_overall_confidence ::
  "(nat \<Rightarrow> int) \<Rightarrow> SourceValidation list \<Rightarrow> real" where
  "calculate_overall_confidence clock svs =
     (if svs = [] then 0
      else
        (let (total_weight, weighted_confidence) = confidence_loop clock 0 svs (0, 0) in
         if total_weight = 0 then 0
         else
           (let overall = fdiv weighted_confidence total_weight
            in max 0 (min 100 overall))))"

definition determine_validation_status :: "real \<Rightarrow> ValidationStatus" where
  "determine_validation_status c =
     (if c \<ge> thresholds ''auto_update'' then VALIDATED
      else if c \<ge> thresholds ''needs_review'' then NEEDS_REVIEW
      else URGENT)"

definition should_auto_update :: "real \<Rightarrow> Discrepancy list \<Rightarrow> bool" where
  "should_auto_update c ds =
     (if c < thresholds ''auto_update'' then False
      else
        (let high_priority = filter (\<lambda>d. priority d = HIGH) ds in
         if high_priority \<noteq> [] then False
         else
           (let low_confidence_discs = filter (\<lambda>d. confidence d < 75) ds in
            if low_confidence_discs \<noteq> [] then False else True)))"

definition critical_types :: "string list" where
  "critical_types = [''license_issue'', ''npi_invalid'', ''status_change'']"

text \<open>The \<open>for\<close> loop of \<open>needs_urgent_review\<close> that returns at the first critical type.\<close>

fun has_critical_type :: "Discrepancy list \<Rightarrow> bool" where
  "has_critical_type [] = False"
| "has_critical_type (disc # rest) =
     (if type_value (type disc) \<in> set critical_types then True else has_critical_type rest)"

definition needs_urgent_review :: "real \<Rightarrow> Discrepancy list \<Rightarrow> bool" where
  "needs_urgent_review c ds =
     (if c < thresholds ''needs_review'' then True
      else if has_critical_type ds then True
      else
        (let high_priority = filter (\<lambda>d. priority d = HIGH) ds in
         if length high_priority \<ge> 2 then True else False))"

text \<open>\<open>calculate_validation_result\<close>, without the summary text.\<close>

definition calculate_validation_result ::
  "(nat \<Rightarrow> int) \<Rightarrow> Provider \<Rightarrow> SourceValidation list \<Rightarrow> ValidationResult" where
  "calculate_validation_result clock provider svs =
     (let all_discrepancies = concat (map sv_discrepancies svs);
          overall = calculate_overall_confidence clock svs;
          st = determine_validation_status overall;
          auto = should_auto_update overall all_discrepancies;
          urgent = needs_urgent_review overall all_discrepancies;
          review = (\<not> auto \<and> \<not> urgent)
      in \<lparr>vr_provider_id = prov_id provider,
          status = st,
          overall_confidence = overall,
          source_validations = svs,
          discrepancies = all_discrepancies,
          total_discrepancies = length all_discrepancies,
          auto_updated = auto,
          needs_review = review,
          urgent_review = urgent\<rparr>)"

section \<open>Quality assurance agent (src/agents/quality\_assurance\_agent.py)\<close>

text \<open>
  \<open>_prioritize_discrepancies\<close>. The dictionary \<open>deduped\<close> keeps insertion order, and
  assigning to a key that is present keeps the key's position: this is an association
  list under \<open>AList.update\<close>. \<open>sorted\<close> is stable, and so is \<open>sort_key\<close>; the key is
  the pair \<open>(priority_order[d.priority], -d.confidence)\<close>, compared lexicographically.
\<close>

definition disc_key :: "Discrepancy \<Rightarrow> string" where
  "disc_key disc = field_name disc @ ''_'' @ type_value (type disc)"

definition dedup_insert ::
  "Discrepancy \<Rightarrow> (string \<times> Discrepancy) list \<Rightarrow> (string \<times> Discrepancy) list" where
  "dedup_insert disc deduped =
     (let key = disc_key disc in
      case map_of deduped key of
        None \<Rightarrow> AList.update key disc deduped
      | Some kept \<Rightarrow>
          if confidence disc > confidence kept then AList.update key disc deduped
          else deduped)"

definition deduped_values :: "Discrepancy list \<Rightarrow> Discrepancy list" where
  "deduped_values ds = map snd (fold dedup_insert ds [])"

fun priority_order :: "Priority \<Rightarrow> nat" where
  "priority_order HIGH = 0"
| "priority_order MEDIUM = 1"
| "priority_order LOW = 2"

definition sort_key_of :: "Discrepancy \<Rightarrow> nat \<times> real" where
  "sort_key_of d = (priority_order (priority d), - confidence d)"

definition prioritize_discrepancies :: "Discrepancy list \<Rightarrow> Discrepancy list" where
  "prioritize_discrepancies ds = sort_key sort_key_of (deduped_values ds)"

text \<open>
  \<open>assess_provider\<close>: the dictionary of source validations is an association list in
  insertion order, \<open>values()\<close> its second components. The agent's running statistics and
  the summary text are not modelled.
\<close>

definition assess_provider ::
  "(nat \<Rightarrow> int) \<Rightarrow> Provider \<Rightarrow> (string \<times> SourceValidation) list \<Rightarrow> ValidationResult" where
  "assess_provider clock provider svd =
     (let validations = map snd svd;
          overall = calculate_overall_confidence clock validations;
          all_discrepancies = concat (map sv_discrepancies validations);
          prioritized = prioritize_discrepancies all_discrepancies;
          st = determine_validation_status overall;
          auto = should_auto_update overall prioritized;
          urgent = needs_urgent_review overall prioritized;
          review = (\<not> auto \<and> \<not> urgent)
      in \<lparr>vr_provider_id = prov_id provider,
          status = st,
          overall_confidence = overall,
          source_validations = validations,
          discrepancies = prioritized,
          total_discrepancies = length prioritized,
          auto_updated = auto,
          needs_review = review,
          urgent_review = urgent\<rparr>)"

text \<open>
  \<open>assess_batch\<close>. An exception (an instance of Python's \<open>Exception\<close>) is a value
  \<open>Exception msg\<close>, with \<open>msg\<close> what \<open>str(e)\<close> gives; a call that may raise returns \<open>exn + 'a\<close>, a callback that returns
  nothing returns \<open>exn option\<close> (\<open>None\<close>: it returned). \<open>clock i\<close> is the clock during
  the assessment of the provider at position \<open>i\<close>.
\<close>

datatype exn = Exception string

fun exn_str :: "exn \<Rightarrow> string" where
  "exn_str (Exception msg) = msg"


type_synonym sv_dict = "(string \<times> SourceValidation) list"




section \<open>Data validation agent (src/agents/data\_validation\_agent.py)\<close>

text \<open>
  The source adapters are parameters: each gives, for a provider, the validation it
  returns or the exception it raises. \<open>asyncio.gather(..., return_exceptions=True)\<close>
  hands every outcome back in task order. \<open>now\<close> is the clock reading that the default
  \<open>timestamp\<close> of a \<open>SourceValidation\<close> built by the agent takes. The agent's statistics
  are not modelled.
\<close>

record services =
  npi_service :: "Provider \<Rightarrow> exn + SourceValidation"
  google_service :: "Provider \<Rightarrow> exn + SourceValidation"
  web_scraper :: "Provider \<Rightarrow> exn + SourceValidation"

fun source_task ::
  "services \<Rightarrow> Provider \<Rightarrow> DataSource \<Rightarrow> (DataSource \<times> (exn + SourceValidation)) option" where
  "source_task svc provider NPI_REGISTRY = Some (NPI_REGISTRY, npi_service svc provider)"
| "source_task svc provider GOOGLE_PLACES = Some (GOOGLE_PLACES, google_service svc provider)"
| "source_task svc provider PRACTICE_WEBSITE = Some (PRACTICE_WEBSITE, web_scraper svc provider)"
| "source_task svc provider STATE_LICENSE = None"
| "source_task svc provider PDF_DOCUMENT = None"

definition failed_validation :: "DataSource \<Rightarrow> exn \<Rightarrow> int \<Rightarrow> SourceValidation" where
  "failed_validation src e now =
     \<lparr>sv_source = src, success = False, sv_confidence = 0, data = [], sv_discrepancies = [],
      error_message = Some (exn_str e), timestamp = now\<rparr>"

definition store_source_result ::
  "int \<Rightarrow> DataSource \<times> (exn + SourceValidation) \<Rightarrow> sv_dict \<Rightarrow> sv_dict" where
  "store_source_result now task results =
     (case task of (src, outcome) \<Rightarrow>
        (case outcome of
           Inl e \<Rightarrow> AList.update (source_value src) (failed_validation src e now) results
         | Inr result \<Rightarrow> AList.update (source_value src) result results))"

definition validate_provider ::
  "services \<Rightarrow> int \<Rightarrow> Provider \<Rightarrow> DataSource list option \<Rightarrow> sv_dict" where
  "validate_provider svc now provider sources_opt =
     (let sources = (case sources_opt of
                       None \<Rightarrow> [NPI_REGISTRY, GOOGLE_PLACES, PRACTICE_WEBSITE]
                     | Some s \<Rightarrow> s);
          tasks = List.map_filter (source_task svc provider) sources
      in fold (store_source_result now) tasks [])"




section \<open>Directory management agent: the report (src/agents/directory\_management\_agent.py)\<close>

text \<open>
  \<open>ValidationReport\<close> without its random \<open>id\<close>; the two counters whose names
  \<open>ValidationResult\<close> already uses carry the prefix \<open>rep_\<close>, and \<open>errors\<close> is
  \<open>rep_errors\<close>. Counts are Python integers. \<open>sum\<close> over the confidences adds them in
  order, each addition rounded, as CPython does up to version 3.11 (later versions carry
  a compensation term that can change the last bit of the average); no property below
  depends on the value of the average.
\<close>

record ValidationReport =
  total_providers :: int
  validated :: int
  rep_auto_updated :: int
  rep_needs_review :: int
  urgent :: int
  rep_errors :: int
  average_confidence :: real
  processing_time_seconds :: real
  discrepancy_counts :: "(string \<times> int) list"
  started_at :: int
  completed_at :: "int option"

definition count_discrepancy :: "Discrepancy \<Rightarrow> (string \<times> int) list \<Rightarrow> (string \<times> int) list" where
  "count_discrepancy disc disc_counts =
     (let dtype = type_value (type disc) in
      AList.update dtype
        ((case map_of disc_counts dtype of Some n \<Rightarrow> n | None \<Rightarrow> 0) + 1) disc_counts)"

definition generate_validation_report ::
  "int \<Rightarrow> Provider list \<Rightarrow> (string \<times> ValidationResult) list \<Rightarrow> real \<Rightarrow> ValidationReport" where
  "generate_validation_report now providers validation_results processing_time =
     (let total_n = int (length providers);
          vals = map snd validation_results;
          auto = int (length (filter auto_updated vals));
          review = int (length (filter needs_review vals));
          urg = int (length (filter urgent_review vals));
          errs = total_n - (auto + review + urg);
          confidences = map overall_confidence vals;
          avg_confidence =
            (if confidences \<noteq> []
             then fdiv (foldl fadd 0 confidences) (real (length confidences)) else 0);
          disc_counts = fold count_discrepancy (concat (map discrepancies vals)) []
      in \<lparr>total_providers = total_n,
          validated = auto + review + urg,
          rep_auto_updated = auto,
          rep_needs_review = review,
          urgent = urg,
          rep_errors = errs,
          average_confidence = avg_confidence,
          processing_time_seconds = processing_time,
          discrepancy_counts = disc_counts,
          started_at = now,
          completed_at = Some now\<rparr>)"

section \<open>Orchestrator (src/agents/orchestrator.py)\<close>

text \<open>
  The \<open>results\<close> dictionary of \<open>run_full_validation\<close>, one field for each key (the
  prefix \<open>res_\<close> keeps the names apart from those of the report); \<open>export_path\<close> is
  absent until an export stores it. Enrichments and actions are dictionaries that the
  orchestrator stores and never reads.
\<close>

type_synonym opaque_dict = "(string \<times> string) list"

record error_entry =
  err_stage :: "string option"
  err_error :: string
  err_timestamp :: int

record results =
  res_providers :: "(string \<times> Provider) list"
  res_validation_results :: "(string \<times> ValidationResult) list"
  res_enrichments :: opaque_dict
  res_actions :: opaque_dict
  res_report :: "ValidationReport option"
  res_errors :: "error_entry list"
  res_timing :: "(string \<times> real) list"
  res_export_path :: "string option"

record config =
  enable_enrichment :: bool
  enable_notifications :: bool
  auto_export_results :: bool
  export_format :: string

text \<open>The orchestrator object; \<open>progress\<close>, which is only handed to the callback, is left out.\<close>

record orchestrator =
  is_running :: bool
  current_stage :: "string option"
  start_time :: "real option"
  orch_config :: config
  last_run_results :: "results option"

text \<open>
  What the run calls and cannot see into. Every call that may raise is given by its
  outcome: \<open>report_progress label\<close> is the outcome of
  \<open>self._report_progress(progress_callback, label, ...)\<close> (\<open>None\<close> when there is no
  callback or it returns), the four batch calls are those of the agents with the progress
  closure the run hands them. \<open>stage_elapsed\<close> gives the measured durations,
  \<open>time_start\<close>, \<open>report_now\<close> and \<open>error_now\<close> the clock readings.
\<close>

record collaborators =
  report_progress :: "string \<Rightarrow> exn option"
  validate_batch_call :: "Provider list \<Rightarrow> exn + (string \<times> sv_dict) list"
  enrich_batch_call :: "Provider list \<Rightarrow> exn + opaque_dict"
  assess_batch_call ::
    "Provider list \<Rightarrow> (string \<times> sv_dict) list \<Rightarrow> exn + (string \<times> ValidationResult) list"
  process_batch_call ::
    "Provider list \<Rightarrow> (string \<times> ValidationResult) list \<Rightarrow> exn + opaque_dict"
  export_results_call ::
    "Provider list \<Rightarrow> (string \<times> ValidationResult) list \<Rightarrow> string \<Rightarrow> exn + string"
  stage_elapsed :: "string \<Rightarrow> real"
  time_start :: real
  report_now :: int
  error_now :: int

text \<open>
  The state of a run: the object, the dictionary being filled, and the local variables
  \<open>source_validations\<close> and \<open>validation_results\<close>. A step of the \<open>try\<close> block returns
  the state it reached and the exception it raised there, if any.
\<close>

record run_state =
  orch :: orchestrator
  res :: results
  local_source_validations :: "(string \<times> sv_dict) list"
  local_validation_results :: "(string \<times> ValidationResult) list"

type_synonym step = "run_state \<Rightarrow> run_state \<times> exn option"

definition then_step :: "step \<Rightarrow> step \<Rightarrow> step" where
  "then_step f g s = (case f s of (s', Some e) \<Rightarrow> (s', Some e) | (s', None) \<Rightarrow> g s')"

definition set_stage :: "string \<Rightarrow> run_state \<Rightarrow> run_state" where
  "set_stage name s = s\<lparr>orch := (orch s)\<lparr>current_stage := Some name\<rparr>\<rparr>"

definition set_timing :: "collaborators \<Rightarrow> string \<Rightarrow> run_state \<Rightarrow> run_state" where
  "set_timing env name s =
     s\<lparr>res := (res s)\<lparr>res_timing := AList.update name (stage_elapsed env name) (res_timing (res s))\<rparr>\<rparr>"

definition stage_data_validation :: "collaborators \<Rightarrow> Provider list \<Rightarrow> step" where
  "stage_data_validation env providers s =
     (let s1 = set_stage ''data_validation'' s in
      case report_progress env ''Validating Data'' of
        Some e \<Rightarrow> (s1, Some e)
      | None \<Rightarrow>
          (case validate_batch_call env providers of
             Inl e \<Rightarrow> (s1, Some e)
           | Inr svs \<Rightarrow>
               (set_timing env ''data_validation'' (s1\<lparr>local_source_validations := svs\<rparr>), None)))"

definition stage_enrichment :: "collaborators \<Rightarrow> Provider list \<Rightarrow> step" where
  "stage_enrichment env providers s =
     (if enable_enrichment (orch_config (orch s)) then
        (let s1 = set_stage ''enrichment'' s in
         case report_progress env ''Enriching Data'' of
           Some e \<Rightarrow> (s1, Some e)
         | None \<Rightarrow>
             (case enrich_batch_call env providers of
                Inl e \<Rightarrow> (s1, Some e)
              | Inr enrichments \<Rightarrow>
                  (set_timing env ''enrichment''
                     (s1\<lparr>res := (res s1)\<lparr>res_enrichments := enrichments\<rparr>\<rparr>), None)))
      else (s, None))"

definition stage_quality_assessment :: "collaborators \<Rightarrow> Provider list \<Rightarrow> step" where
  "stage_quality_assessment env providers s =
     (let s1 = set_stage ''quality_assessment'' s in
      case report_progress env ''Quality Assessment'' of
        Some e \<Rightarrow> (s1, Some e)
      | None \<Rightarrow>
          (case assess_batch_call env providers (local_source_validations s1) of
             Inl e \<Rightarrow> (s1, Some e)
           | Inr vrs \<Rightarrow>
               (set_timing env ''quality_assessment''
                  (s1\<lparr>local_validation_results := vrs,
                      res := (res s1)\<lparr>res_validation_results := vrs\<rparr>\<rparr>), None)))"

definition stage_directory_management :: "collaborators \<Rightarrow> Provider list \<Rightarrow> step" where
  "stage_directory_management env providers s =
     (let s1 = set_stage ''directory_management'' s in
      case report_progress env ''Processing Results'' of
        Some e \<Rightarrow> (s1, Some e)
      | None \<Rightarrow>
          (case process_batch_call env providers (local_validation_results s1) of
             Inl e \<Rightarrow> (s1, Some e)
           | Inr actions \<Rightarrow>
               (set_timing env ''directory_management''
                  (s1\<lparr>res := (res s1)\<lparr>res_actions := actions\<rparr>\<rparr>), None)))"

text \<open>
  The last part of the \<open>try\<close> block: the report, the optional export, the providers by
  identifier, the final progress call, the total time and \<open>self.last_run_results\<close>.
\<close>

definition stage_export :: "collaborators \<Rightarrow> Provider list \<Rightarrow> step" where
  "stage_export env providers s =
     (if auto_export_results (orch_config (orch s)) then
        (case export_results_call env providers (local_validation_results s)
                (export_format (orch_config (orch s))) of
           Inl e \<Rightarrow> (s, Some e)
         | Inr path \<Rightarrow> (s\<lparr>res := (res s)\<lparr>res_export_path := Some path\<rparr>\<rparr>, None))
      else (s, None))"

definition store_last_run :: "run_state \<Rightarrow> run_state" where
  "store_last_run s = s\<lparr>orch := (orch s)\<lparr>last_run_results := Some (res s)\<rparr>\<rparr>"

definition stage_finalize :: "collaborators \<Rightarrow> Provider list \<Rightarrow> step" where
  "stage_finalize env providers s =
     (let s1 = s\<lparr>res := (res s)\<lparr>res_providers :=
                  fold (\<lambda>p d. AList.update (prov_id p) p d) providers []\<rparr>\<rparr> in
      case report_progress env ''Complete'' of
        Some e \<Rightarrow> (s1, Some e)
      | None \<Rightarrow> (store_last_run (set_timing env ''total'' s1), None))"

definition stage_reporting :: "collaborators \<Rightarrow> Provider list \<Rightarrow> step" where
  "stage_reporting env providers s =
     (let s1 = set_stage ''reporting'' s in
      case report_progress env ''Generating Report'' of
        Some e \<Rightarrow> (s1, Some e)
      | None \<Rightarrow>
          (let report = generate_validation_report (report_now env) providers
                          (local_validation_results s1) (stage_elapsed env ''total'');
               s2 = set_timing env ''reporting'' (s1\<lparr>res := (res s1)\<lparr>res_report := Some report\<rparr>\<rparr>)
           in then_step (stage_export env providers) (stage_finalize env providers) s2))"

definition try_block :: "collaborators \<Rightarrow> Provider list \<Rightarrow> step" where
  "try_block env providers =
     then_step (stage_data_validation env providers)
       (then_step (stage_enrichment env providers)
          (then_step (stage_quality_assessment env providers)
             (then_step (stage_directory_management env providers)
                (stage_reporting env providers))))"

definition initial_results :: results where
  "initial_results =
     \<lparr>res_providers = [], res_validation_results = [], res_enrichments = [], res_actions = [],
      res_report = None, res_errors = [], res_timing = [], res_export_path = None\<rparr>"

definition start_state :: "collaborators \<Rightarrow> orchestrator \<Rightarrow> run_state" where
  "start_state env self =
     \<lparr>orch = self\<lparr>is_running := True, start_time := Some (time_start env)\<rparr>,
      res = initial_results,
      local_source_validations = [],
      local_validation_results = []\<rparr>"

text \<open>The \<open>except Exception\<close> clause: the entry, then the progress call, which may raise.\<close>

definition except_clause :: "collaborators \<Rightarrow> exn \<Rightarrow> step" where
  "except_clause env e s =
     (let entry = \<lparr>err_stage = current_stage (orch s), err_error = exn_str e,
                   err_timestamp = error_now env\<rparr>;
          s1 = s\<lparr>res := (res s)\<lparr>res_errors := res_errors (res s) @ [entry]\<rparr>\<rparr>
      in (s1, report_progress env ''Error''))"

text \<open>
  \<open>run_full_validation\<close> returns the object as the \<open>finally\<close> clause leaves it, and
  either the dictionary or the exception that leaves the function.
\<close>

definition run_full_validation ::
  "collaborators \<Rightarrow> orchestrator \<Rightarrow> Provider list \<Rightarrow> orchestrator \<times> (exn + results)" where
  "run_full_validation env self providers =
     (let (s1, raised) = try_block env providers (start_state env self);
          (s2, escaping) = (case raised of
                              None \<Rightarrow> (s1, None)
                            | Some e \<Rightarrow> except_clause env e s1);
          self' = (orch s2)\<lparr>is_running := False, current_stage := None\<rparr>
      in (self', case escaping of Some e \<Rightarrow> Inl e | None \<Rightarrow> Inr (res s2)))"

section \<open>Notions of the specification\<close>

text \<open>Exactly one of three flags is true.\<close>

definition exactly_one :: "bool \<Rightarrow> bool \<Rightarrow> bool \<Rightarrow> bool" where
  "exactly_one a b c = ((a \<and> \<not> b \<and> \<not> c) \<or> (\<not> a \<and> b \<and> \<not> c) \<or> (\<not> a \<and> \<not> b \<and> c))"

text \<open>
  The aggregate as the specification words it. The freshness factor is a step function
  of the age (here in microseconds); a successful outcome contributes weight times raw
  confidence times freshness factor, a failed one the fixed penalty of weight times 10;
  the weights of the successful outcomes are the denominator; the quotient is clamped
  to the interval from 0 to 100.
\<close>

definition spec_freshness_factor :: "int \<Rightarrow> real" where
  "spec_freshness_factor age =
     (if age < 24 * 3600000000 then fl 1.05
      else if age < 7 * 86400000000 then fl 1.02
      else if age < 30 * 86400000000 then 1.00
      else if age < 90 * 86400000000 then fl 0.95
      else fl 0.90)"

text \<open>The weight that the loop looks up for a validation.\<close>

definition source_weight :: "SourceValidation \<Rightarrow> real" where
  "source_weight v = source_weights_get (source_value (sv_source v))"

definition clamp :: "real \<Rightarrow> real \<Rightarrow> real \<Rightarrow> real" where
  "clamp x lo hi = max lo (min hi x)"

text \<open>
  The operations are those of double precision, as section 4.1 of the specification
  requires, in the order of the program: the confidence is multiplied by the freshness
  factor, the product by the weight, and the contributions and penalties are added to
  the running sum in list order; every operation is rounded.
\<close>

definition dp_contribution :: "(nat \<Rightarrow> int) \<Rightarrow> nat \<times> SourceValidation \<Rightarrow> real" where
  "dp_contribution clock iv =
     (case iv of (i, v) \<Rightarrow>
        if success v
        then fmul (source_weight v)
               (fmul (sv_confidence v) (spec_freshness_factor (clock i - timestamp v)))
        else - fmul (source_weight v) 10)"

definition dp_weighted_sum :: "(nat \<Rightarrow> int) \<Rightarrow> SourceValidation list \<Rightarrow> real" where
  "dp_weighted_sum clock svs =
     foldl (\<lambda>acc iv. fadd acc (dp_contribution clock iv)) 0 (enumerate 0 svs)"

definition dp_total_weight :: "SourceValidation list \<Rightarrow> real" where
  "dp_total_weight svs = foldl fadd 0 (map source_weight (filter success svs))"

section \<open>Concrete inputs\<close>

definition ex_provider :: Provider where
  "ex_provider = \<lparr>prov_id = ''p1'', npi = ''1234567890''\<rparr>"

text \<open>A licence issue of medium priority, reported with confidence 80.\<close>

definition ex_license_disc :: Discrepancy where
  "ex_license_disc =
     \<lparr>disc_id = ''d1'', provider_id = ''p1'', type = LICENSE_ISSUE, field_name = ''license_number'',
      current_value = ''A1'', validated_value = ''A2'', source = PDF_DOCUMENT,
      priority = MEDIUM, confidence = 80, resolved = False, resolution_notes = None,
      resolved_at = None, resolved_by = None, detected_at = 0\<rparr>"

definition ex_phone_disc :: Discrepancy where
  "ex_phone_disc =
     \<lparr>disc_id = ''d2'', provider_id = ''p1'', type = PHONE_MISMATCH, field_name = ''phone'',
      current_value = ''555-0100'', validated_value = ''555-0199'', source = NPI_REGISTRY,
      priority = MEDIUM, confidence = 80, resolved = False, resolution_notes = None,
      resolved_at = None, resolved_by = None, detected_at = 0\<rparr>"

text \<open>A successful registry validation with confidence 90, observed at time 0.\<close>

definition ex_sv_npi :: SourceValidation where
  "ex_sv_npi =
     \<lparr>sv_source = NPI_REGISTRY, success = True, sv_confidence = 90, data = [],
      sv_discrepancies = [ex_phone_disc], error_message = None, timestamp = 0\<rparr>"

text \<open>The same field and type as \<open>ex_phone_disc\<close>, from another source, with confidence 95.\<close>

definition ex_phone_disc2 :: Discrepancy where
  "ex_phone_disc2 =
     \<lparr>disc_id = ''d3'', provider_id = ''p1'', type = PHONE_MISMATCH, field_name = ''phone'',
      current_value = ''555-0100'', validated_value = ''555-0199'', source = GOOGLE_PLACES,
      priority = MEDIUM, confidence = 95, resolved = False, resolution_notes = None,
      resolved_at = None, resolved_by = None, detected_at = 0\<rparr>"

text \<open>A status change of high priority.\<close>

definition ex_status_disc :: Discrepancy where
  "ex_status_disc =
     \<lparr>disc_id = ''d4'', provider_id = ''p1'', type = STATUS_CHANGE, field_name = ''business_status'',
      current_value = ''Active'', validated_value = ''CLOSED'', source = GOOGLE_PLACES,
      priority = HIGH, confidence = 95, resolved = False, resolution_notes = None,
      resolved_at = None, resolved_by = None, detected_at = 0\<rparr>"

text \<open>
  A failed validation; a registry validation observed on day 90 and a listing validation
  observed on day 0, both with confidence 100; a clock that stands at day 100.
\<close>

definition ex_sv_failed :: SourceValidation where
  "ex_sv_failed =
     \<lparr>sv_source = PRACTICE_WEBSITE, success = False, sv_confidence = 0, data = [],
      sv_discrepancies = [], error_message = Some ''timeout'', timestamp = 0\<rparr>"

definition ex_sv_recent :: SourceValidation where
  "ex_sv_recent =
     \<lparr>sv_source = NPI_REGISTRY, success = True, sv_confidence = 100, data = [],
      sv_discrepancies = [], error_message = None, timestamp = 90 * 86400000000\<rparr>"

definition ex_sv_old :: SourceValidation where
  "ex_sv_old =
     \<lparr>sv_source = GOOGLE_PLACES, success = True, sv_confidence = 100, data = [],
      sv_discrepancies = [], error_message = None, timestamp = 0\<rparr>"

definition ex_clock_day100 :: "nat \<Rightarrow> int" where
  "ex_clock_day100 i = 100 * 86400000000"

text \<open>
  A website validation and a registry validation, both with confidence 60 and observed
  on day 90: ten days old on day 100, so that their freshness factor is 1.
\<close>

definition ex_sv_web60 :: SourceValidation where
  "ex_sv_web60 =
     \<lparr>sv_source = PRACTICE_WEBSITE, success = True, sv_confidence = 60, data = [],
      sv_discrepancies = [], error_message = None, timestamp = 90 * 86400000000\<rparr>"

definition ex_sv_npi60 :: SourceValidation where
  "ex_sv_npi60 =
     \<lparr>sv_source = NPI_REGISTRY, success = True, sv_confidence = 60, data = [],
      sv_discrepancies = [], error_message = None, timestamp = 90 * 86400000000\<rparr>"





text \<open>
  The orchestrator as \<open>__init__\<close> leaves it; collaborators whose assessment stage raises
  while the callback never does; and collaborators whose validation stage raises and
  whose callback raises on the stage label \<open>Error\<close>.
\<close>

definition ex_orchestrator :: orchestrator where
  "ex_orchestrator =
     \<lparr>is_running = False, current_stage = None, start_time = None,
      orch_config = \<lparr>enable_enrichment = True, enable_notifications = True,
                     auto_export_results = False, export_format = ''csv''\<rparr>,
      last_run_results = None\<rparr>"

definition ex_env_assess_fails :: collaborators where
  "ex_env_assess_fails =
     \<lparr>report_progress = (\<lambda>label. None),
      validate_batch_call = (\<lambda>ps. Inr []),
      enrich_batch_call = (\<lambda>ps. Inr [(''p1'', ''enriched'')]),
      assess_batch_call = (\<lambda>ps svr. Inl (Exception ''scoring failed'')),
      process_batch_call = (\<lambda>ps vrs. Inr []),
      export_results_call = (\<lambda>ps vrs fmt. Inr ''results.csv''),
      stage_elapsed = (\<lambda>name. 1),
      time_start = 0, report_now = 0, error_now = 7\<rparr>"

definition ex_env_error_report_raises :: collaborators where
  "ex_env_error_report_raises =
     \<lparr>report_progress =
        (\<lambda>label. if label = ''Error'' then Some (Exception ''unknown stage'') else None),
      validate_batch_call = (\<lambda>ps. Inl (Exception ''registry unreachable'')),
      enrich_batch_call = (\<lambda>ps. Inr []),
      assess_batch_call = (\<lambda>ps svr. Inr []),
      process_batch_call = (\<lambda>ps vrs. Inr []),
      export_results_call = (\<lambda>ps vrs fmt. Inr ''results.csv''),
      stage_elapsed = (\<lambda>name. 1),
      time_start = 0, report_now = 0, error_now = 7\<rparr>"

section \<open>Properties of the rounding\<close>

text \<open>
  \<open>round_even\<close> is within one half of its argument and keeps its sign; \<open>expo x\<close> is the
  exponent of \<open>x\<close>.
\<close>

lemma round_even_error: "\<bar>of_int (round_even y) - y\<bar> \<le> 1 / 2"
proof -
  have "of_int \<lfloor>y\<rfloor> \<le> y" "y < of_int \<lfloor>y\<rfloor> + 1"
    by linarith+
  then show ?thesis
    by (auto simp: round_even_def Let_def)
qed

lemma round_even_nonneg: "0 \<le> y \<Longrightarrow> 0 \<le> round_even y"
  by (auto simp: round_even_def Let_def)

lemma round_even_nonpos:
  assumes "y \<le> 0"
  shows "round_even y \<le> 0"
proof (cases "y = 0")
  case True
  then show ?thesis by (simp add: round_even_def)
next
  case False
  with assms have "\<lfloor>y\<rfloor> \<le> - 1"
    by (simp add: floor_le_iff)
  then show ?thesis
    by (auto simp: round_even_def Let_def)
qed

lemma powi_nat: "0 \<le> k \<Longrightarrow> (2::real) powi k = 2 ^ nat k"
  by (simp add: power_int_def)

lemma powi_neg: "0 \<le> k \<Longrightarrow> (2::real) powi (- k) = 1 / 2 ^ nat k"
  by (simp only: power_int_minus powi_nat inverse_eq_divide)

lemma expo_bounds:
  assumes "x \<noteq> 0"
  shows "2 powi expo x \<le> \<bar>x\<bar>" and "\<bar>x\<bar> < 2 powi (expo x + 1)"
proof -
  have "2 powi expo x \<le> \<bar>x\<bar> \<and> \<bar>x\<bar> < 2 powi (expo x + 1)"
  proof (cases "1 \<le> \<bar>x\<bar>")
    case True
    define m where "m = \<lfloor>\<bar>x\<bar>\<rfloor>"
    have m: "0 < m" using True by (simp add: m_def)
    have e: "expo x = bitlen m - 1" using True by (simp add: expo_def m_def)
    have b1: "1 \<le> bitlen m" using m by (simp add: bitlen_alt_def)
    from bitlen_bounds[OF m] have lo: "2 ^ nat (bitlen m - 1) \<le> m" and hi: "m < 2 ^ nat (bitlen m)"
      by simp_all
    have "(2::real) powi (bitlen m - 1) = 2 ^ nat (bitlen m - 1)"
      using b1 by (simp add: powi_nat)
    also have "\<dots> \<le> of_int m"
      using lo by (metis of_int_le_iff of_int_numeral of_int_power)
    also have "\<dots> \<le> \<bar>x\<bar>"
      by (simp add: m_def)
    finally have A: "2 powi expo x \<le> \<bar>x\<bar>" by (simp add: e)
    from hi have "m + 1 \<le> 2 ^ nat (bitlen m)" by simp
    then have "of_int (m + 1) \<le> (2::real) ^ nat (bitlen m)"
      by (metis of_int_le_iff of_int_numeral of_int_power)
    moreover have "\<bar>x\<bar> < of_int (m + 1)"
      unfolding m_def by linarith
    ultimately have "\<bar>x\<bar> < (2::real) ^ nat (bitlen m)" by linarith
    also have "\<dots> = 2 powi (expo x + 1)"
      using b1 by (simp add: e powi_nat)
    finally show ?thesis using A by simp
  next
    case False
    define y where "y = 1 / \<bar>x\<bar>"
    define m where "m = \<lceil>y\<rceil> - 1"
    define k where "k = bitlen m"
    have xpos: "0 < \<bar>x\<bar>" using assms by simp
    have y1: "1 < y" using False xpos by (simp add: y_def)
    have m: "0 < m" using y1 by (simp add: m_def less_ceiling_iff)
    have e: "expo x = - k" using False by (simp add: expo_def m_def y_def k_def)
    have k1: "1 \<le> k" using m by (simp add: k_def bitlen_alt_def)
    from bitlen_bounds[OF m] have lo: "2 ^ nat (k - 1) \<le> m" and hi: "m < 2 ^ nat k"
      by (simp_all add: k_def)
    have ylo: "of_int m < y" unfolding m_def by linarith
    have yhi: "y \<le> of_int (m + 1)" unfolding m_def by simp
    have "(2::real) ^ nat (k - 1) \<le> of_int m"
      using lo by (metis of_int_le_iff of_int_numeral of_int_power)
    with ylo have L: "(2::real) ^ nat (k - 1) < y" by linarith
    from hi have "m + 1 \<le> 2 ^ nat k" by simp
    then have "of_int (m + 1) \<le> (2::real) ^ nat k"
      by (metis of_int_le_iff of_int_numeral of_int_power)
    with yhi have U: "y \<le> (2::real) ^ nat k" by linarith
    have x: "\<bar>x\<bar> = 1 / y" by (simp add: y_def)
    have "(2::real) powi (- k) = 1 / 2 ^ nat k"
      using k1 by (simp only: powi_neg)
    also have "\<dots> \<le> 1 / y"
      using U y1 by (simp add: frac_le)
    finally have A: "2 powi expo x \<le> \<bar>x\<bar>" by (simp add: e x)
    have "1 / y < 1 / (2::real) ^ nat (k - 1)"
      using L by (simp add: frac_less2)
    also have "\<dots> = 2 powi (expo x + 1)"
    proof -
      have "expo x + 1 = - (k - 1)" by (simp add: e)
      moreover have "0 \<le> k - 1" using k1 by simp
      ultimately show ?thesis by (simp only: powi_neg)
    qed
    finally show ?thesis using A by (simp add: x)
  qed
  then show "2 powi expo x \<le> \<bar>x\<bar>" and "\<bar>x\<bar> < 2 powi (expo x + 1)"
    by simp_all
qed

text \<open>
  The error of one rounding is at most half a unit in the last place: a relative error of
  at most \<open>2^(-53)\<close> from the smallest normal number \<open>2^(-1022)\<close> on. Rounding keeps the
  sign, and a result above \<open>10^(-13)\<close> comes from a number of at least \<open>10^(-14)\<close>.
\<close>

lemma abs_diff_bounds: "\<bar>a - b\<bar> \<le> (c::real) \<Longrightarrow> a \<le> b + c \<and> b - c \<le> a"
  by linarith

lemma fl_error: "\<bar>fl x - x\<bar> \<le> 2 powi (max (expo x) (- 1022) - 53)"
proof (cases "x = 0")
  case True
  then show ?thesis by (simp add: fl_def)
next
  case False
  define q :: real where "q = 2 powi (max (expo x) (- 1022) - 52)"
  have q: "0 < q" by (simp add: q_def)
  have f: "fl x = of_int (round_even (x / q)) * q"
    using False by (simp add: fl_def q_def Let_def)
  have "fl x - x = (of_int (round_even (x / q)) - x / q) * q"
    using q by (simp add: f left_diff_distrib)
  then have "\<bar>fl x - x\<bar> = \<bar>of_int (round_even (x / q)) - x / q\<bar> * \<bar>q\<bar>"
    by (simp only: abs_mult)
  also have "\<dots> = \<bar>of_int (round_even (x / q)) - x / q\<bar> * q"
    using q by simp
  also have "\<dots> \<le> (1 / 2) * q"
    using round_even_error[of "x / q"] q by (intro mult_right_mono) simp_all
  also have "\<dots> = 2 powi (max (expo x) (- 1022) - 53)"
  proof -
    define m where "m = max (expo x) (- 1022) - 53"
    have "(2::real) powi (m + 1) = 2 powi m * 2 powi 1"
      by (rule power_int_add) simp
    moreover have "max (expo x) (- 1022) - 52 = m + 1" by (simp add: m_def)
    ultimately have "q = 2 powi m * 2"
      unfolding q_def by (simp add: add.commute)
    then show ?thesis by (simp add: m_def)
  qed
  finally show ?thesis .
qed

lemma fl_nonneg: "0 \<le> x \<Longrightarrow> 0 \<le> fl x"
  by (simp add: fl_def Let_def round_even_nonneg)

lemma fl_nonpos: "x \<le> 0 \<Longrightarrow> fl x \<le> 0"
proof -
  assume x: "x \<le> 0"
  have "\<And>q::real. 0 < q \<Longrightarrow> of_int (round_even (x / q)) * q \<le> 0"
  proof -
    fix q :: real assume q: "0 < q"
    then have "x / q \<le> 0" using x by (simp add: divide_le_0_iff)
    then have "round_even (x / q) \<le> 0" by (rule round_even_nonpos)
    then have "(of_int (round_even (x / q)) :: real) \<le> 0" by simp
    then show "of_int (round_even (x / q)) * q \<le> 0"
      using q by (simp add: mult_le_0_iff)
  qed
  then show ?thesis by (simp add: fl_def Let_def)
qed

lemma expo_normal:
  assumes "2 powi (- 1022) \<le> \<bar>x\<bar>"
  shows "- 1022 \<le> expo x"
proof -
  have x0: "x \<noteq> 0" using assms by auto
  have "(2::real) powi (- 1022) < 2 powi (expo x + 1)"
    using assms expo_bounds(2)[OF x0] by linarith
  show ?thesis
  proof (rule ccontr)
    assume "\<not> - 1022 \<le> expo x"
    then have "expo x + 1 \<le> - 1022" by simp
    then have "(2::real) powi (expo x + 1) \<le> 2 powi (- 1022)"
      by (rule power_int_increasing) simp
    with \<open>(2::real) powi (- 1022) < 2 powi (expo x + 1)\<close> show False by simp
  qed
qed

lemma fl_error_normal:
  assumes "2 powi (- 1022) \<le> \<bar>x\<bar>"
  shows "\<bar>fl x - x\<bar> \<le> \<bar>x\<bar> / 2 ^ 53"
proof -
  have x0: "x \<noteq> 0" using assms by auto
  have e: "max (expo x) (- 1022) = expo x"
    using expo_normal[OF assms] by simp
  have "\<bar>fl x - x\<bar> \<le> 2 powi (expo x - 53)"
    using fl_error[of x] by (simp only: e)
  also have "\<dots> = 2 powi expo x * 2 powi (- 53)"
    by (simp add: power_int_diff power_int_minus field_simps)
  also have "\<dots> \<le> \<bar>x\<bar> * 2 powi (- 53)"
    using expo_bounds(1)[OF x0] by (intro mult_right_mono) simp_all
  also have "\<dots> = \<bar>x\<bar> / 2 ^ 53"
    by (simp add: power_int_minus field_simps)
  finally show ?thesis .
qed

lemma smallest_normal_small: "(2::real) powi (- 1022) \<le> 1 / 10 ^ 20"
proof -
  have "(2::real) powi (- 1022) \<le> 2 powi (- 70)"
    by (rule power_int_increasing) simp_all
  also have "\<dots> = 1 / 2 ^ 70"
    by (simp add: power_int_minus field_simps)
  also have "\<dots> \<le> 1 / 10 ^ 20" by simp
  finally show ?thesis .
qed

lemma fl_lower:
  assumes "1 / 10 ^ 20 \<le> x"
  shows "x * (1 - 1 / 2 ^ 53) \<le> fl x"
proof -
  define d where "d = x / 2 ^ 53"
  have "2 powi (- 1022) \<le> x" by (rule order_trans[OF smallest_normal_small assms])
  then have "2 powi (- 1022) \<le> \<bar>x\<bar>" by (rule order_trans) simp
  from fl_error_normal[OF this] have E: "\<bar>fl x - x\<bar> \<le> d"
    using assms by (simp add: d_def)
  have A: "x * (1 - 1 / 2 ^ 53) = x - d" "x * (1 + 1 / 2 ^ 53) = x + d"
    by (simp_all add: d_def right_diff_distrib distrib_left)
  show ?thesis
    unfolding A using abs_diff_bounds[OF E] by simp
qed

lemma fl_upper:
  assumes "1 / 10 ^ 20 \<le> x"
  shows "fl x \<le> x * (1 + 1 / 2 ^ 53)"
proof -
  define d where "d = x / 2 ^ 53"
  have "2 powi (- 1022) \<le> x" by (rule order_trans[OF smallest_normal_small assms])
  then have "2 powi (- 1022) \<le> \<bar>x\<bar>" by (rule order_trans) simp
  from fl_error_normal[OF this] have E: "\<bar>fl x - x\<bar> \<le> d"
    using assms by (simp add: d_def)
  have A: "x * (1 - 1 / 2 ^ 53) = x - d" "x * (1 + 1 / 2 ^ 53) = x + d"
    by (simp_all add: d_def right_diff_distrib distrib_left)
  show ?thesis
    unfolding A using abs_diff_bounds[OF E] by simp
qed

lemma fl_pos: "1 / 10 ^ 20 \<le> x \<Longrightarrow> 0 < fl x"
proof -
  assume a: "1 / 10 ^ 20 \<le> x"
  have "(0::real) < 1 / 10 ^ 20" by simp
  with a have "0 < x" by linarith
  moreover have "(0::real) < 1 - 1 / 2 ^ 53" by simp
  ultimately have "0 < x * (1 - 1 / 2 ^ 53)" by (rule mult_pos_pos)
  with fl_lower[OF a] show ?thesis by linarith
qed

lemma fl_large:
  assumes "1 / 10 ^ 13 < fl x"
  shows "1 / 10 ^ 14 \<le> x"
proof (rule ccontr)
  assume "\<not> 1 / 10 ^ 14 \<le> x"
  then have lt: "x < 1 / 10 ^ 14" by simp
  have pos: "0 < x"
  proof (rule ccontr)
    assume "\<not> 0 < x"
    then have "fl x \<le> 0" by (intro fl_nonpos) simp
    with assms show False by simp
  qed
  show False
  proof (cases "1 / 10 ^ 20 \<le> x")
    case True
    from fl_upper[OF True] have "fl x \<le> x * (1 + 1 / 2 ^ 53)" .
    also have "\<dots> \<le> x * 2" using pos by (intro mult_left_mono) simp_all
    also have "\<dots> < 1 / 10 ^ 13" using lt by simp
    finally show False using assms by simp
  next
    case False
    then have small: "x < 1 / 10 ^ 20" by simp
    have e: "2 powi expo x \<le> x" using expo_bounds(1)[of x] pos by simp
    have "(2::real) powi (max (expo x) (- 1022) - 53) \<le> 1 / 10 ^ 20"
    proof (cases "expo x \<le> - 1022")
      case True
      then have "max (expo x) (- 1022) - 53 = - 1075" by simp
      moreover have "(2::real) powi (- 1075) \<le> 2 powi (- 1022)"
        by (rule power_int_increasing) simp_all
      ultimately show ?thesis using smallest_normal_small by simp
    next
      case False
      then have m: "max (expo x) (- 1022) - 53 = expo x - 53" by simp
      have "(2::real) powi (expo x - 53) \<le> 2 powi expo x"
        by (rule power_int_increasing) simp_all
      with e small have "(2::real) powi (expo x - 53) \<le> 1 / 10 ^ 20" by linarith
      then show ?thesis by (simp only: m)
    qed
    with fl_error[of x] have "\<bar>fl x - x\<bar> \<le> 1 / 10 ^ 20" by (rule order_trans)
    then have "fl x \<le> x + 1 / 10 ^ 20" by (rule abs_diff_bounds[THEN conjunct1])
    with small have "fl x < 1 / 10 ^ 20 + 1 / 10 ^ 20" by linarith
    also have "\<dots> \<le> (1::real) / 10 ^ 13" by simp
    finally have "fl x < 1 / 10 ^ 13" .
    with assms show False by simp
  qed
qed

text \<open>The definitions that evaluate a rounded operation on given numbers.\<close>

lemmas float_eval =
  fadd_def fsub_def fmul_def fdiv_def fl_def expo_def round_even_def compute_bitlen Let_def

section \<open>Properties of the decision rules\<close>

lemma thresholds_auto_update: "thresholds ''auto_update'' = 80"
  by (simp add: thresholds_def CONFIDENCE_THRESHOLDS_def)

lemma thresholds_needs_review: "thresholds ''needs_review'' = 60"
  by (simp add: thresholds_def CONFIDENCE_THRESHOLDS_def)

text \<open>
  Claim C4. For every confidence, \<open>determine_validation_status\<close> returns \<open>VALIDATED\<close>
  exactly when the confidence is at least 80, \<open>NEEDS_REVIEW\<close> exactly when it is at least
  60 and below 80, and \<open>URGENT\<close> exactly when it is below 60; at exactly 80 the status is
  \<open>VALIDATED\<close> and at exactly 60 it is \<open>NEEDS_REVIEW\<close>.
\<close>

theorem determine_validation_status_thresholds:
  "(determine_validation_status c = VALIDATED \<longleftrightarrow> 80 \<le> c)
   \<and> (determine_validation_status c = NEEDS_REVIEW \<longleftrightarrow> 60 \<le> c \<and> c < 80)
   \<and> (determine_validation_status c = URGENT \<longleftrightarrow> c < 60)
   \<and> determine_validation_status 80 = VALIDATED
   \<and> determine_validation_status 60 = NEEDS_REVIEW"
  by (simp add: determine_validation_status_def thresholds_auto_update thresholds_needs_review)

lemma has_critical_type_iff:
  "has_critical_type ds \<longleftrightarrow> (\<exists>d\<in>set ds. type d \<in> {LICENSE_ISSUE, NPI_INVALID, STATUS_CHANGE})"
proof (induction ds)
  case Nil
  show ?case by simp
next
  case (Cons d ds)
  have "type_value (type d) \<in> set critical_types \<longleftrightarrow> type d \<in> {LICENSE_ISSUE, NPI_INVALID, STATUS_CHANGE}"
    by (cases "type d") (simp_all add: critical_types_def)
  with Cons show ?case by auto
qed

lemma should_auto_update_iff:
  "should_auto_update c ds \<longleftrightarrow> 80 \<le> c \<and> (\<forall>d\<in>set ds. priority d \<noteq> HIGH \<and> 75 \<le> confidence d)"
  by (auto simp add: should_auto_update_def thresholds_auto_update filter_empty_conv not_less)

lemma needs_urgent_review_iff:
  "needs_urgent_review c ds \<longleftrightarrow>
     c < 60 \<or> has_critical_type ds \<or> 2 \<le> length (filter (\<lambda>d. priority d = HIGH) ds)"
  by (simp add: needs_urgent_review_def thresholds_needs_review)

lemma both_flags_iff:
  "should_auto_update c ds \<and> needs_urgent_review c ds \<longleftrightarrow>
     80 \<le> c \<and> (\<forall>d\<in>set ds. priority d \<noteq> HIGH \<and> 75 \<le> confidence d)
     \<and> (\<exists>d\<in>set ds. type d \<in> {LICENSE_ISSUE, NPI_INVALID, STATUS_CHANGE})"
proof -
  have "filter (\<lambda>d. priority d = HIGH) ds = []" if "\<forall>d\<in>set ds. priority d \<noteq> HIGH \<and> 75 \<le> confidence d"
    using that by (simp add: filter_empty_conv)
  then show ?thesis
    unfolding should_auto_update_iff needs_urgent_review_iff has_critical_type_iff
    by fastforce
qed

lemma result_flags_calc:
  "auto_updated (calculate_validation_result clock p svs) =
     should_auto_update (overall_confidence (calculate_validation_result clock p svs))
       (discrepancies (calculate_validation_result clock p svs))"
  "urgent_review (calculate_validation_result clock p svs) =
     needs_urgent_review (overall_confidence (calculate_validation_result clock p svs))
       (discrepancies (calculate_validation_result clock p svs))"
  "needs_review (calculate_validation_result clock p svs) =
     (\<not> auto_updated (calculate_validation_result clock p svs)
      \<and> \<not> urgent_review (calculate_validation_result clock p svs))"
  by (simp_all add: calculate_validation_result_def Let_def)

lemma result_flags_assess:
  "auto_updated (assess_provider clock p svd) =
     should_auto_update (overall_confidence (assess_provider clock p svd))
       (discrepancies (assess_provider clock p svd))"
  "urgent_review (assess_provider clock p svd) =
     needs_urgent_review (overall_confidence (assess_provider clock p svd))
       (discrepancies (assess_provider clock p svd))"
  "needs_review (assess_provider clock p svd) =
     (\<not> auto_updated (assess_provider clock p svd) \<and> \<not> urgent_review (assess_provider clock p svd))"
  by (simp_all add: assess_provider_def Let_def)

lemma flags_of_result:
  assumes "auto_updated r = should_auto_update (overall_confidence r) (discrepancies r)"
    and "urgent_review r = needs_urgent_review (overall_confidence r) (discrepancies r)"
    and "needs_review r = (\<not> auto_updated r \<and> \<not> urgent_review r)"
  shows "(auto_updated r \<or> needs_review r \<or> urgent_review r)
        \<and> \<not> (needs_review r \<and> auto_updated r)
        \<and> \<not> (needs_review r \<and> urgent_review r)
        \<and> ((auto_updated r \<and> urgent_review r) \<longleftrightarrow>
             80 \<le> overall_confidence r
             \<and> (\<forall>d\<in>set (discrepancies r). priority d \<noteq> HIGH \<and> 75 \<le> confidence d)
             \<and> (\<exists>d\<in>set (discrepancies r). type d \<in> {LICENSE_ISSUE, NPI_INVALID, STATUS_CHANGE}))
        \<and> (exactly_one (auto_updated r) (needs_review r) (urgent_review r) \<longleftrightarrow>
             \<not> (auto_updated r \<and> urgent_review r))"
proof -
  have "(auto_updated r \<and> urgent_review r) \<longleftrightarrow>
             80 \<le> overall_confidence r
             \<and> (\<forall>d\<in>set (discrepancies r). priority d \<noteq> HIGH \<and> 75 \<le> confidence d)
             \<and> (\<exists>d\<in>set (discrepancies r). type d \<in> {LICENSE_ISSUE, NPI_INVALID, STATUS_CHANGE})"
    unfolding assms(1,2) by (rule both_flags_iff)
  moreover have "(auto_updated r \<or> needs_review r \<or> urgent_review r)
        \<and> \<not> (needs_review r \<and> auto_updated r) \<and> \<not> (needs_review r \<and> urgent_review r)
        \<and> (exactly_one (auto_updated r) (needs_review r) (urgent_review r) \<longleftrightarrow>
             \<not> (auto_updated r \<and> urgent_review r))"
    unfolding assms(3) exactly_one_def by blast
  ultimately show ?thesis by blast
qed

text \<open>
  Claim C1, as amended. \<open>should_auto_update\<close> and \<open>needs_urgent_review\<close> are both true
  exactly when the confidence is at least 80, no discrepancy has priority \<open>HIGH\<close>, every
  discrepancy has confidence at least 75 and some discrepancy has a critical type
  (licence issue, invalid NPI, status change). In every result built by
  \<open>calculate_validation_result\<close> or \<open>assess_provider\<close> at least one of the three flags
  is true, \<open>needs_review\<close> is never true together with another flag, the two other flags
  are both true exactly under the condition above (read on the result's own confidence
  and discrepancies), and exactly one flag is true if and only if they are not both true.
\<close>

theorem decision_flags_overlap:
  "((should_auto_update c ds \<and> needs_urgent_review c ds) \<longleftrightarrow>
      80 \<le> c \<and> (\<forall>d\<in>set ds. priority d \<noteq> HIGH \<and> 75 \<le> confidence d)
      \<and> (\<exists>d\<in>set ds. type d \<in> {LICENSE_ISSUE, NPI_INVALID, STATUS_CHANGE}))
   \<and> (\<forall>r\<in>{calculate_validation_result clock p svs, assess_provider clock p svd}.
        (auto_updated r \<or> needs_review r \<or> urgent_review r)
        \<and> \<not> (needs_review r \<and> auto_updated r)
        \<and> \<not> (needs_review r \<and> urgent_review r)
        \<and> ((auto_updated r \<and> urgent_review r) \<longleftrightarrow>
             80 \<le> overall_confidence r
             \<and> (\<forall>d\<in>set (discrepancies r). priority d \<noteq> HIGH \<and> 75 \<le> confidence d)
             \<and> (\<exists>d\<in>set (discrepancies r). type d \<in> {LICENSE_ISSUE, NPI_INVALID, STATUS_CHANGE}))
        \<and> (exactly_one (auto_updated r) (needs_review r) (urgent_review r) \<longleftrightarrow>
             \<not> (auto_updated r \<and> urgent_review r)))"
proof (rule conjI)
  show "(should_auto_update c ds \<and> needs_urgent_review c ds) \<longleftrightarrow>
      80 \<le> c \<and> (\<forall>d\<in>set ds. priority d \<noteq> HIGH \<and> 75 \<le> confidence d)
      \<and> (\<exists>d\<in>set ds. type d \<in> {LICENSE_ISSUE, NPI_INVALID, STATUS_CHANGE})"
    by (rule both_flags_iff)
next
  show "\<forall>r\<in>{calculate_validation_result clock p svs, assess_provider clock p svd}.
        (auto_updated r \<or> needs_review r \<or> urgent_review r)
        \<and> \<not> (needs_review r \<and> auto_updated r)
        \<and> \<not> (needs_review r \<and> urgent_review r)
        \<and> ((auto_updated r \<and> urgent_review r) \<longleftrightarrow>
             80 \<le> overall_confidence r
             \<and> (\<forall>d\<in>set (discrepancies r). priority d \<noteq> HIGH \<and> 75 \<le> confidence d)
             \<and> (\<exists>d\<in>set (discrepancies r). type d \<in> {LICENSE_ISSUE, NPI_INVALID, STATUS_CHANGE}))
        \<and> (exactly_one (auto_updated r) (needs_review r) (urgent_review r) \<longleftrightarrow>
             \<not> (auto_updated r \<and> urgent_review r))"
  proof (rule ballI)
    fix r
    assume "r \<in> {calculate_validation_result clock p svs, assess_provider clock p svd}"
    then consider "r = calculate_validation_result clock p svs" | "r = assess_provider clock p svd"
      by blast
    then show "(auto_updated r \<or> needs_review r \<or> urgent_review r)
        \<and> \<not> (needs_review r \<and> auto_updated r)
        \<and> \<not> (needs_review r \<and> urgent_review r)
        \<and> ((auto_updated r \<and> urgent_review r) \<longleftrightarrow>
             80 \<le> overall_confidence r
             \<and> (\<forall>d\<in>set (discrepancies r). priority d \<noteq> HIGH \<and> 75 \<le> confidence d)
             \<and> (\<exists>d\<in>set (discrepancies r). type d \<in> {LICENSE_ISSUE, NPI_INVALID, STATUS_CHANGE}))
        \<and> (exactly_one (auto_updated r) (needs_review r) (urgent_review r) \<longleftrightarrow>
             \<not> (auto_updated r \<and> urgent_review r))"
    proof cases
      case 1
      show ?thesis unfolding 1 by (rule flags_of_result) (rule result_flags_calc)+
    next
      case 2
      show ?thesis unfolding 2 by (rule flags_of_result) (rule result_flags_assess)+
    qed
  qed
qed

lemma source_weights_get_simps:
  "source_weights_get ''npi_registry'' = fl 0.35"
  "source_weights_get ''google_places'' = fl 0.25"
  "source_weights_get ''practice_website'' = fl 0.20"
  "source_weights_get ''state_license'' = fl 0.15"
  "source_weights_get ''pdf_document'' = fl 0.05"
  by (simp_all add: source_weights_get_def SOURCE_WEIGHTS_def)

text \<open>The aggregate of one registry validation of confidence 90, observed now.\<close>

lemma ex1_loop:
  "confidence_loop (\<lambda>_. 0) 0 [ex_sv_npi] (0, 0)
     = (fadd 0 (fl 0.35), fadd 0 (fmul (fl 0.35) (fmul 90 (fl 1.05))))"
  by (simp add: ex_sv_npi_def source_weights_get_simps
      calculate_freshness_factor_def timedelta_hours_def Let_def)

lemma ex1_total_weight: "fadd 0 (fl 0.35) = 3152519739159347 / 9007199254740992"
  by (simp add: float_eval)

lemma ex1_weighted: "fadd 0 (fmul (fl 0.35) (fmul 90 (fl 1.05))) = 4654892427352473 / 140737488355328"
  by (simp add: float_eval)

lemma ex1_quotient:
  "fdiv (4654892427352473 / 140737488355328) (3152519739159347 / 9007199254740992) = 94.5"
  by (simp add: float_eval)

lemma ex1: "calculate_overall_confidence (\<lambda>_. 0) [ex_sv_npi] = 94.5"
  unfolding calculate_overall_confidence_def ex1_loop ex1_total_weight ex1_weighted
  by (simp add: ex1_quotient)

text \<open>
  The claim as first stated (the two flags are never both true) fails for a confidence of
  90 and a single licence issue of medium priority reported with confidence 80.
\<close>

theorem flags_both_true_counterexample:
  "should_auto_update 90 [ex_license_disc] \<and> needs_urgent_review 90 [ex_license_disc]"
  by (simp add: should_auto_update_iff needs_urgent_review_iff has_critical_type_iff ex_license_disc_def)

lemma ex_sv_npi_discs: "sv_discrepancies ex_sv_npi = [ex_phone_disc]"
  by (simp add: ex_sv_npi_def)

lemma ex_phone_not_urgent: "60 \<le> c \<Longrightarrow> \<not> needs_urgent_review c [ex_phone_disc]"
  by (simp add: needs_urgent_review_iff has_critical_type_iff ex_phone_disc_def)

theorem decision_flags_overlap_witness:
  "should_auto_update 90 [ex_phone_disc] \<and> \<not> needs_urgent_review 90 [ex_phone_disc]
   \<and> exactly_one (auto_updated (calculate_validation_result (\<lambda>_. 0) ex_provider [ex_sv_npi]))
        (needs_review (calculate_validation_result (\<lambda>_. 0) ex_provider [ex_sv_npi]))
        (urgent_review (calculate_validation_result (\<lambda>_. 0) ex_provider [ex_sv_npi]))"
proof -
  have a: "should_auto_update 90 [ex_phone_disc]"
    by (simp add: should_auto_update_iff ex_phone_disc_def)
  have b: "\<not> urgent_review (calculate_validation_result (\<lambda>_. 0) ex_provider [ex_sv_npi])"
    by (simp add: calculate_validation_result_def Let_def ex_sv_npi_discs ex1 ex_phone_not_urgent)
  show ?thesis
    using decision_flags_overlap[of 90 "[ex_phone_disc]" "\<lambda>_. 0" ex_provider "[ex_sv_npi]" "[]"]
      a b ex_phone_not_urgent[of 90]
    by simp
qed

section \<open>Properties of the discrepancy resolver\<close>

lemma disc_key_inj:
  assumes "disc_key d = disc_key e"
  shows "field_name d = field_name e \<and> type d = type e"
proof -
  have "rev (disc_key d) = rev (disc_key e)"
    using assms by simp
  then show ?thesis
    by (cases "type d"; cases "type e") (simp_all add: disc_key_def)
qed

lemma disc_key_eq_iff:
  "disc_key d = disc_key e \<longleftrightarrow> field_name d = field_name e \<and> type d = type e"
  using disc_key_inj[of d e] by (auto simp: disc_key_def)

lemma find_snoc:
  "find P (xs @ [x]) = (case find P xs of Some y \<Rightarrow> Some y | None \<Rightarrow> if P x then Some x else None)"
  by (induction xs) auto

text \<open>What the dictionary holds after the loop has consumed \<open>xs\<close>.\<close>

lemma dedup_insert_map_of:
  "map_of (dedup_insert x m) =
     (case map_of m (disc_key x) of
        None \<Rightarrow> (map_of m)(disc_key x \<mapsto> x)
      | Some kept \<Rightarrow> if confidence kept < confidence x then (map_of m)(disc_key x \<mapsto> x) else map_of m)"
  by (simp add: dedup_insert_def Let_def update_conv' split: option.split)

lemma dedup_insert_keys:
  "map fst (dedup_insert x m) =
     (if disc_key x \<in> set (map fst m) then map fst m else map fst m @ [disc_key x])"
proof (cases "map_of m (disc_key x)")
  case None
  then have "disc_key x \<notin> set (map fst m)"
    by (simp add: map_of_eq_None_iff)
  with None show ?thesis
    by (simp add: dedup_insert_def Let_def update_keys)
next
  case (Some kept)
  then have "disc_key x \<in> set (map fst m)"
    by (metis map_of_eq_None_iff option.distinct(1) set_map)
  with Some show ?thesis
    by (simp add: dedup_insert_def Let_def update_keys)
qed

lemma dedup_keys_set: "set (map fst (fold dedup_insert xs [])) = disc_key ` set xs"
proof (induction xs rule: rev_induct)
  case Nil
  show ?case by simp
next
  case (snoc x xs)
  then show ?case
    by (auto simp: dedup_insert_keys)
qed

lemma dedup_keys_distinct: "distinct (map fst (fold dedup_insert xs []))"
proof (induction xs rule: rev_induct)
  case Nil
  show ?case by simp
next
  case (snoc x xs)
  then show ?case
    by (simp add: dedup_insert_keys)
qed

lemma dedup_entries:
  assumes "map_of (fold dedup_insert xs []) k = Some d"
  shows "disc_key d = k
       \<and> (\<forall>e\<in>set xs. disc_key e = k \<longrightarrow> confidence e \<le> confidence d)
       \<and> find (\<lambda>e. disc_key e = k \<and> confidence e = confidence d) xs = Some d"
  using assms
proof (induction xs arbitrary: k d rule: rev_induct)
  case Nil
  then show ?case by simp
next
  case (snoc x xs)
  let ?m = "fold dedup_insert xs []"
  let ?kx = "disc_key x"
  have dom: "\<And>k'. (map_of ?m k' = None) = (k' \<notin> disc_key ` set xs)"
    using dedup_keys_set[of xs] by (simp add: map_of_eq_None_iff)
  show ?case
  proof (cases "map_of ?m ?kx")
    case None
    then have fresh: "\<forall>e\<in>set xs. disc_key e \<noteq> ?kx"
      using dom[of ?kx] by (metis imageI)
    have m': "map_of (fold dedup_insert (xs @ [x]) []) = (map_of ?m)(?kx \<mapsto> x)"
      using None by (simp add: dedup_insert_map_of)
    show ?thesis
    proof (cases "k = ?kx")
      case True
      with snoc.prems m' have "d = x" by simp
      moreover have "find (\<lambda>e. disc_key e = ?kx \<and> confidence e = confidence x) xs = None"
        using fresh by (auto simp: find_None_iff)
      ultimately show ?thesis
        using True fresh by (simp add: find_snoc)
    next
      case False
      with snoc.prems m' have "map_of ?m k = Some d" by simp
      from snoc.IH[OF this] False show ?thesis
        by (simp add: find_snoc)
    qed
  next
    case (Some kept)
    note kept = snoc.IH[OF Some]
    show ?thesis
    proof (cases "confidence kept < confidence x")
      case True
      have m': "map_of (fold dedup_insert (xs @ [x]) []) = (map_of ?m)(?kx \<mapsto> x)"
        using Some True by (simp add: dedup_insert_map_of)
      show ?thesis
      proof (cases "k = ?kx")
        case k: True
        with snoc.prems m' have dx: "d = x" by simp
        have less: "\<forall>e\<in>set xs. disc_key e = ?kx \<longrightarrow> confidence e < confidence x"
          using kept True by fastforce
        then have "find (\<lambda>e. disc_key e = ?kx \<and> confidence e = confidence x) xs = None"
          by (fastforce simp: find_None_iff)
        then show ?thesis
          using k dx less by (auto simp: find_snoc)
      next
        case False
        with snoc.prems m' have "map_of ?m k = Some d" by simp
        from snoc.IH[OF this] False show ?thesis
          by (simp add: find_snoc)
      qed
    next
      case False
      have m': "map_of (fold dedup_insert (xs @ [x]) []) = map_of ?m"
        using Some False by (simp add: dedup_insert_map_of)
      with snoc.prems have old: "map_of ?m k = Some d" by simp
      note ih = snoc.IH[OF old]
      show ?thesis
      proof (cases "k = ?kx")
        case True
        with old Some have "d = kept" by simp
        with ih False True show ?thesis
          by (simp add: find_snoc)
      next
        case k: False
        with ih show ?thesis
          by (simp add: find_snoc)
      qed
    qed
  qed
qed

lemma dedup_entry_key:
  assumes "(k, d) \<in> set (fold dedup_insert xs [])"
  shows "map_of (fold dedup_insert xs []) k = Some d"
  using assms dedup_keys_distinct[of xs] by simp

lemma deduped_values_keys:
  "map disc_key (deduped_values xs) = map fst (fold dedup_insert xs [])"
proof -
  have "\<forall>p\<in>set (fold dedup_insert xs []). disc_key (snd p) = fst p"
  proof
    fix p assume "p \<in> set (fold dedup_insert xs [])"
    then have "map_of (fold dedup_insert xs []) (fst p) = Some (snd p)"
      using dedup_entry_key[of "fst p" "snd p" xs] by simp
    from dedup_entries[OF this] show "disc_key (snd p) = fst p" by simp
  qed
  then show ?thesis
    by (simp add: deduped_values_def)
qed

lemma deduped_values_distinct: "distinct (map disc_key (deduped_values xs))"
  by (simp add: deduped_values_keys dedup_keys_distinct)

lemma deduped_values_keyset: "disc_key ` set (deduped_values xs) = disc_key ` set xs"
  using dedup_keys_set[of xs] deduped_values_keys[of xs] by (metis set_map)

lemma deduped_values_best:
  assumes "d \<in> set (deduped_values xs)"
  shows "(\<forall>e\<in>set xs. disc_key e = disc_key d \<longrightarrow> confidence e \<le> confidence d)
       \<and> find (\<lambda>e. disc_key e = disc_key d \<and> confidence e = confidence d) xs = Some d"
proof -
  from assms obtain k where "(k, d) \<in> set (fold dedup_insert xs [])"
    by (auto simp: deduped_values_def)
  then have "map_of (fold dedup_insert xs []) k = Some d"
    by (rule dedup_entry_key)
  from dedup_entries[OF this] show ?thesis by blast
qed

lemma deduped_values_subset: "set (deduped_values xs) \<subseteq> set xs"
proof
  fix d assume "d \<in> set (deduped_values xs)"
  from deduped_values_best[OF this]
  have "find (\<lambda>e. disc_key e = disc_key d \<and> confidence e = confidence d) xs = Some d" by simp
  then show "d \<in> set xs"
    by (auto simp: find_Some_iff)
qed

lemma prioritize_set: "set (prioritize_discrepancies xs) = set (deduped_values xs)"
  by (simp add: prioritize_discrepancies_def)

lemma prioritize_subset: "set (prioritize_discrepancies xs) \<subseteq> set xs"
  using deduped_values_subset by (simp add: prioritize_set)

lemma filter_key_length:
  "distinct (map g ys) \<Longrightarrow> x \<in> set ys \<Longrightarrow> length (filter (\<lambda>d. g d = g x) ys) = 1"
proof (induction ys)
  case Nil
  then show ?case by simp
next
  case (Cons y ys)
  show ?case
  proof (cases "g y = g x")
    case True
    from Cons.prems(1) have "g y \<notin> g ` set ys" by simp
    with True have "\<forall>d\<in>set ys. g d \<noteq> g x" by (metis imageI)
    then have "filter (\<lambda>d. g d = g x) ys = []"
      by (simp add: filter_empty_conv)
    with True show ?thesis by simp
  next
    case False
    with Cons show ?thesis by auto
  qed
qed

lemma sort_key_of_le:
  "sort_key_of a \<le> sort_key_of b \<longleftrightarrow>
     priority_order (priority a) < priority_order (priority b)
     \<or> (priority_order (priority a) = priority_order (priority b) \<and> confidence b \<le> confidence a)"
  by (auto simp: sort_key_of_def less_eq_prod_def)

lemma sort_key_of_eq:
  "sort_key_of d = (r, - c) \<longleftrightarrow> priority_order (priority d) = r \<and> confidence d = c"
  by (auto simp: sort_key_of_def)

lemma prioritize_sorted:
  "sorted_wrt (\<lambda>a b. priority_order (priority a) < priority_order (priority b)
                 \<or> (priority_order (priority a) = priority_order (priority b)
                    \<and> confidence b \<le> confidence a))
     (prioritize_discrepancies xs)"
proof -
  have "sorted (map sort_key_of (prioritize_discrepancies xs))"
    by (simp add: prioritize_discrepancies_def)
  then show ?thesis
    by (simp add: sorted_map sort_key_of_le)
qed

lemma prioritize_stable:
  "filter (\<lambda>d. priority_order (priority d) = r \<and> confidence d = c) (prioritize_discrepancies xs)
   = filter (\<lambda>d. priority_order (priority d) = r \<and> confidence d = c) (deduped_values xs)"
  using sort_key_stable[of sort_key_of "(r, - c)" "deduped_values xs"]
  by (simp add: prioritize_discrepancies_def sort_key_of_eq)

lemma prioritize_one_per_pair:
  assumes "x \<in> set xs"
  shows "length (filter (\<lambda>d. field_name d = field_name x \<and> type d = type x)
                   (prioritize_discrepancies xs)) = 1"
proof -
  from assms have "disc_key x \<in> disc_key ` set (deduped_values xs)"
    by (simp add: deduped_values_keyset)
  then obtain y where y: "y \<in> set (deduped_values xs)" "disc_key y = disc_key x"
    by auto
  have "length (filter (\<lambda>d. disc_key d = disc_key y) (deduped_values xs)) = 1"
    using deduped_values_distinct y(1) by (rule filter_key_length)
  then have "length (filter (\<lambda>d. disc_key d = disc_key x) (deduped_values xs)) = 1"
    by (simp add: y(2))
  moreover have "length (filter (\<lambda>d. disc_key d = disc_key x) (prioritize_discrepancies xs))
        = length (filter (\<lambda>d. disc_key d = disc_key x) (deduped_values xs))"
    by (simp add: prioritize_discrepancies_def filter_sort)
  ultimately show ?thesis
    by (simp add: disc_key_eq_iff)
qed

lemma prioritize_best:
  assumes "d \<in> set (prioritize_discrepancies xs)"
  shows "(\<forall>e\<in>set xs. field_name e = field_name d \<and> type e = type d
                      \<longrightarrow> confidence e \<le> confidence d)
        \<and> find (\<lambda>e. field_name e = field_name d \<and> type e = type d
                      \<and> confidence e = confidence d) xs = Some d"
proof -
  from assms have d: "d \<in> set (deduped_values xs)" by (simp add: prioritize_set)
  from deduped_values_best[OF d] show ?thesis
    by (simp add: disc_key_eq_iff conj_assoc)
qed

text \<open>
  Claim C5. For every list of discrepancies, the output of \<open>_prioritize_discrepancies\<close>
  holds exactly one discrepancy for each (field name, type) pair of the input; each
  discrepancy of the output has the highest confidence among the input discrepancies
  of its pair and is the first of them in input order with that confidence; the output
  is ordered by priority rank ascending (\<open>HIGH\<close> 0, \<open>MEDIUM\<close> 1, \<open>LOW\<close> 2), then by
  confidence descending; and discrepancies with equal rank and confidence keep the
  relative order they have after deduplication (the order of the dictionary's values).
\<close>

theorem prioritize_discrepancies_dedup_sorted:
  "(\<forall>x\<in>set xs. length (filter (\<lambda>d. field_name d = field_name x \<and> type d = type x)
                           (prioritize_discrepancies xs)) = 1)
   \<and> (\<forall>d\<in>set (prioritize_discrepancies xs).
        (\<forall>e\<in>set xs. field_name e = field_name d \<and> type e = type d
                      \<longrightarrow> confidence e \<le> confidence d)
        \<and> find (\<lambda>e. field_name e = field_name d \<and> type e = type d
                      \<and> confidence e = confidence d) xs = Some d)
   \<and> sorted_wrt (\<lambda>a b. priority_order (priority a) < priority_order (priority b)
                    \<or> (priority_order (priority a) = priority_order (priority b)
                       \<and> confidence b \<le> confidence a))
        (prioritize_discrepancies xs)
   \<and> (\<forall>r c. filter (\<lambda>d. priority_order (priority d) = r \<and> confidence d = c)
               (prioritize_discrepancies xs)
            = filter (\<lambda>d. priority_order (priority d) = r \<and> confidence d = c)
               (deduped_values xs))"
proof -
  have c1: "\<forall>x\<in>set xs. length (filter (\<lambda>d. field_name d = field_name x \<and> type d = type x)
                           (prioritize_discrepancies xs)) = 1"
    using prioritize_one_per_pair by blast
  have c2: "\<forall>d\<in>set (prioritize_discrepancies xs).
        (\<forall>e\<in>set xs. field_name e = field_name d \<and> type e = type d
                      \<longrightarrow> confidence e \<le> confidence d)
        \<and> find (\<lambda>e. field_name e = field_name d \<and> type e = type d
                      \<and> confidence e = confidence d) xs = Some d"
    using prioritize_best by blast
  have c4: "\<forall>r c. filter (\<lambda>d. priority_order (priority d) = r \<and> confidence d = c)
               (prioritize_discrepancies xs)
            = filter (\<lambda>d. priority_order (priority d) = r \<and> confidence d = c)
               (deduped_values xs)"
    using prioritize_stable by blast
  show ?thesis
    by (rule conjI[OF c1 conjI[OF c2 conjI[OF prioritize_sorted c4]]])
qed

lemma ex_deduped:
  "deduped_values [ex_phone_disc, ex_status_disc, ex_phone_disc2] = [ex_phone_disc2, ex_status_disc]"
  by (simp add: deduped_values_def dedup_insert_def disc_key_def
      ex_phone_disc_def ex_phone_disc2_def ex_status_disc_def)

lemma ex_prioritize:
  "prioritize_discrepancies [ex_phone_disc, ex_status_disc, ex_phone_disc2]
     = [ex_status_disc, ex_phone_disc2]"
  unfolding prioritize_discrepancies_def ex_deduped
  by (simp add: sort_key_of_def ex_phone_disc2_def ex_status_disc_def)

theorem prioritize_discrepancies_dedup_sorted_witness:
  "prioritize_discrepancies [ex_phone_disc, ex_status_disc, ex_phone_disc2]
     = [ex_status_disc, ex_phone_disc2]
   \<and> length (filter (\<lambda>d. field_name d = field_name ex_phone_disc \<and> type d = type ex_phone_disc)
               [ex_status_disc, ex_phone_disc2]) = 1
   \<and> find (\<lambda>e. field_name e = field_name ex_phone_disc2 \<and> type e = type ex_phone_disc2
                 \<and> confidence e = confidence ex_phone_disc2)
        [ex_phone_disc, ex_status_disc, ex_phone_disc2] = Some ex_phone_disc2"
  using prioritize_discrepancies_dedup_sorted[of "[ex_phone_disc, ex_status_disc, ex_phone_disc2]"]
  unfolding ex_prioritize
  by simp

lemma AList_update_fresh: "k \<notin> fst ` set al \<Longrightarrow> AList.update k v al = al @ [(k, v)]"
  by (induction al) auto

lemma dedup_fold_distinct:
  assumes "distinct (map disc_key ys)" and "disc_key ` set ys \<inter> fst ` set m = {}"
  shows "fold dedup_insert ys m = m @ map (\<lambda>d. (disc_key d, d)) ys"
  using assms
proof (induction ys arbitrary: m)
  case Nil
  show ?case by simp
next
  case (Cons y ys)
  from Cons.prems(2) have fresh: "disc_key y \<notin> fst ` set m" by auto
  then have "map_of m (disc_key y) = None"
    by (simp add: map_of_eq_None_iff)
  then have step: "dedup_insert y m = m @ [(disc_key y, y)]"
    using fresh by (simp add: dedup_insert_def AList_update_fresh)
  have "disc_key ` set ys \<inter> fst ` set (m @ [(disc_key y, y)]) = {}"
    using Cons.prems by auto
  with Cons.IH[of "m @ [(disc_key y, y)]"] Cons.prems(1) step show ?case
    by simp
qed

lemma deduped_values_id: "distinct (map disc_key ys) \<Longrightarrow> deduped_values ys = ys"
  using dedup_fold_distinct[of ys "[]"] by (simp add: deduped_values_def comp_def)

lemma distinct_map_insort_key:
  "distinct (map g (insort_key f x ys)) \<longleftrightarrow> g x \<notin> g ` set ys \<and> distinct (map g ys)"
  by (induction ys) (auto simp: set_insort_key)

lemma distinct_map_sort_key: "distinct (map g (sort_key f ys)) \<longleftrightarrow> distinct (map g ys)"
  by (induction ys) (simp_all add: distinct_map_insort_key)

lemma prioritize_keys_distinct: "distinct (map disc_key (prioritize_discrepancies xs))"
  by (simp add: prioritize_discrepancies_def distinct_map_sort_key deduped_values_distinct)

text \<open>
  Claim C9. The resolver is idempotent: resolving an already resolved list returns it
  unchanged.
\<close>

theorem prioritize_discrepancies_idempotent:
  "prioritize_discrepancies (prioritize_discrepancies xs) = prioritize_discrepancies xs"
proof -
  have "deduped_values (prioritize_discrepancies xs) = prioritize_discrepancies xs"
    using prioritize_keys_distinct by (rule deduped_values_id)
  moreover have "sorted (map sort_key_of (prioritize_discrepancies xs))"
    by (simp add: prioritize_discrepancies_def)
  then have "sort_key sort_key_of (prioritize_discrepancies xs) = prioritize_discrepancies xs"
    by (rule sort_key_id_if_sorted)
  ultimately show ?thesis
    by (simp add: prioritize_discrepancies_def[of "prioritize_discrepancies xs"])
qed

text \<open>
  After deduplication the keys stand in the order in which the input first shows them.
\<close>

lemma deduped_values_first_seen:
  "map disc_key (deduped_values xs) = rev (remdups (rev (map disc_key xs)))"
proof (induction xs rule: rev_induct)
  case Nil
  show ?case by (simp add: deduped_values_def)
next
  case (snoc x xs)
  have "map disc_key (deduped_values (xs @ [x])) =
          (if disc_key x \<in> set (map disc_key (deduped_values xs))
           then map disc_key (deduped_values xs)
           else map disc_key (deduped_values xs) @ [disc_key x])"
    unfolding deduped_values_keys by (simp add: dedup_insert_keys)
  with snoc show ?case by simp
qed

text \<open>
  Claim C10. In every result of \<open>calculate_validation_result\<close> and of \<open>assess_provider\<close>,
  \<open>total_discrepancies\<close> is the length of the list \<open>discrepancies\<close>, and every
  discrepancy of that list is a discrepancy of one of the source validations given.
\<close>

theorem validation_result_discrepancies:
  "total_discrepancies (calculate_validation_result clock p svs)
     = length (discrepancies (calculate_validation_result clock p svs))
   \<and> set (discrepancies (calculate_validation_result clock p svs))
       \<subseteq> (\<Union>v\<in>set svs. set (sv_discrepancies v))
   \<and> total_discrepancies (assess_provider clock p svd)
     = length (discrepancies (assess_provider clock p svd))
   \<and> set (discrepancies (assess_provider clock p svd))
       \<subseteq> (\<Union>v\<in>set (map snd svd). set (sv_discrepancies v))"
proof -
  have "set (prioritize_discrepancies (concat (map sv_discrepancies (map snd svd))))
          \<subseteq> (\<Union>v\<in>set (map snd svd). set (sv_discrepancies v))"
    using prioritize_subset[of "concat (map sv_discrepancies (map snd svd))"] by auto
  then show ?thesis
    by (simp add: calculate_validation_result_def assess_provider_def Let_def)
qed

theorem validation_result_discrepancies_witness:
  "total_discrepancies (calculate_validation_result (\<lambda>_. 0) ex_provider [ex_sv_npi]) = 1
   \<and> discrepancies (calculate_validation_result (\<lambda>_. 0) ex_provider [ex_sv_npi]) = [ex_phone_disc]
   \<and> set [ex_phone_disc] \<subseteq> (\<Union>v\<in>set [ex_sv_npi]. set (sv_discrepancies v))"
  using validation_result_discrepancies[of "\<lambda>_. 0" ex_provider "[ex_sv_npi]" "[]"]
  by (simp add: calculate_validation_result_def Let_def ex_sv_npi_discs)

section \<open>Properties of the aggregate\<close>

text \<open>
  The weights and the freshness factors as doubles. Every weight lies between 1/25 and
  2/5, and ten times a weight of the table is computed without error.
\<close>

lemma weight_values:
  "fl 0.35 = 3152519739159347 / 9007199254740992"
  "fl 0.25 = 1 / 4"
  "fl 0.20 = 3602879701896397 / 18014398509481984"
  "fl 0.15 = 5404319552844595 / 36028797018963968"
  "fl 0.05 = 3602879701896397 / 72057594037927936"
  by (simp_all add: float_eval)

lemma factor_values:
  "fl 1.05 = 4728779608739021 / 4503599627370496"
  "fl 1.02 = 2296835809958953 / 2251799813685248"
  "fl 0.95 = 4278419646001971 / 4503599627370496"
  "fl 0.90 = 8106479329266893 / 9007199254740992"
  by (simp_all add: float_eval)

lemma source_weight_cases:
  "source_weight v = (case sv_source v of
      NPI_REGISTRY \<Rightarrow> 3152519739159347 / 9007199254740992
    | GOOGLE_PLACES \<Rightarrow> 1 / 4
    | PRACTICE_WEBSITE \<Rightarrow> 3602879701896397 / 18014398509481984
    | STATE_LICENSE \<Rightarrow> 5404319552844595 / 36028797018963968
    | PDF_DOCUMENT \<Rightarrow> 3602879701896397 / 72057594037927936)"
  by (cases "sv_source v")
     (simp_all only: source_weight_def source_value.simps source_weights_get_simps weight_values
        DataSource.case)

lemma source_weight_bounds: "1 / 25 \<le> source_weight v" "source_weight v \<le> 2 / 5"
  by (cases "sv_source v"; simp add: source_weight_cases)+

lemma source_weight_nonneg: "0 \<le> source_weight v"
  using source_weight_bounds(1)[of v] by linarith

lemma penalty_values:
  "fmul (source_weight v) 10 = (case sv_source v of
      NPI_REGISTRY \<Rightarrow> 3.5 | GOOGLE_PLACES \<Rightarrow> 2.5 | PRACTICE_WEBSITE \<Rightarrow> 2
    | STATE_LICENSE \<Rightarrow> 1.5 | PDF_DOCUMENT \<Rightarrow> 0.5)"
  by (cases "sv_source v"; simp add: source_weight_cases; simp add: float_eval)

text \<open>
  The loop computes the two sums of the specification: the weights of the successful
  outcomes, and the contributions and penalties, each added in list order.
\<close>

lemma freshness_spec:
  "calculate_freshness_factor now ts = spec_freshness_factor (now - ts)"
  by (simp add: calculate_freshness_factor_def spec_freshness_factor_def Let_def
      timedelta_hours_def timedelta_days_def)

lemma fsub_fadd: "fsub x y = fadd x (- y)"
  by (simp add: fsub_def fadd_def)

lemma confidence_loop_fold:
  "confidence_loop clock i svs (tw, wc) =
     (foldl fadd tw (map source_weight (filter success svs)),
      foldl (\<lambda>acc iv. fadd acc (dp_contribution clock iv)) wc (enumerate i svs))"
proof (induction svs arbitrary: i tw wc)
  case Nil
  show ?case by simp
next
  case (Cons v rest)
  show ?case
    by (simp add: Cons.IH Let_def source_weight_def dp_contribution_def freshness_spec fsub_fadd)
qed

lemma confidence_loop_closed:
  "confidence_loop clock 0 svs (0, 0) = (dp_total_weight svs, dp_weighted_sum clock svs)"
  by (simp add: confidence_loop_fold dp_total_weight_def dp_weighted_sum_def)

lemma confidence_loop_append:
  "confidence_loop clock i (xs @ ys) st =
     confidence_loop clock (i + length xs) ys (confidence_loop clock i xs st)"
proof (induction xs arbitrary: i st)
  case Nil
  show ?case by (cases st) simp
next
  case (Cons v rest)
  obtain tw wc where st: "st = (tw, wc)" by (cases st)
  show ?case
    by (simp add: st Cons.IH Let_def)
qed

lemma calc_loop:
  "calculate_overall_confidence clock svs =
     (if svs = [] \<or> dp_total_weight svs = 0 then 0
      else max 0 (min 100 (fdiv (dp_weighted_sum clock svs) (dp_total_weight svs))))"
  by (simp add: calculate_overall_confidence_def confidence_loop_closed)

lemma loop_success_step:
  "success v \<Longrightarrow>
   confidence_loop clock i (v # rest) (tw, wc) =
     confidence_loop clock (Suc i) rest
       (fadd tw (source_weight v),
        fadd wc (fmul (source_weight v)
          (fmul (sv_confidence v) (calculate_freshness_factor (clock i) (timestamp v)))))"
  by (simp add: Let_def source_weight_def)

lemma loop_failed_step:
  "\<not> success v \<Longrightarrow>
   confidence_loop clock i (v # rest) (tw, wc) =
     confidence_loop clock (Suc i) rest (tw, fsub wc (fmul (source_weight v) 10))"
  by (simp add: Let_def source_weight_def)

text \<open>
  The total weight is never negative, and it is 0 only if no outcome succeeded: a sum
  of doubles that are at least 1/25 does not round to 0.
\<close>

lemma foldl_fadd_nonneg:
  "0 \<le> tw \<Longrightarrow> \<forall>w\<in>set ws. 0 \<le> w \<Longrightarrow> 0 \<le> foldl fadd tw ws"
proof (induction ws arbitrary: tw)
  case Nil
  then show ?case by simp
next
  case (Cons w ws)
  have "0 \<le> fadd tw w"
    unfolding fadd_def using Cons.prems by (intro fl_nonneg) simp
  then show ?case using Cons by simp
qed

lemma fadd_weight_pos:
  assumes "0 \<le> tw" "1 / 25 \<le> w"
  shows "0 < fadd tw w"
proof -
  have "(1::real) / 10 ^ 20 \<le> 1 / 25" by simp
  also have "\<dots> \<le> tw + w" using assms by linarith
  finally show ?thesis unfolding fadd_def by (rule fl_pos)
qed

lemma foldl_fadd_pos:
  "0 \<le> tw \<Longrightarrow> ws \<noteq> [] \<Longrightarrow> \<forall>w\<in>set ws. 1 / 25 \<le> w \<Longrightarrow> 0 < foldl fadd tw ws"
proof (induction ws arbitrary: tw)
  case Nil
  then show ?case by simp
next
  case (Cons w ws)
  have p: "0 < fadd tw w" using Cons.prems by (intro fadd_weight_pos) simp_all
  show ?case
  proof (cases "ws = []")
    case True
    then show ?thesis using p by simp
  next
    case False
    then show ?thesis using Cons.IH[of "fadd tw w"] Cons.prems p by simp
  qed
qed

lemma dp_total_weight_nonneg: "0 \<le> dp_total_weight svs"
  unfolding dp_total_weight_def
  by (rule foldl_fadd_nonneg) (auto simp: source_weight_nonneg)

lemma dp_total_weight_zero_iff: "dp_total_weight svs = 0 \<longleftrightarrow> (\<forall>v\<in>set svs. \<not> success v)"
proof
  assume z: "dp_total_weight svs = 0"
  show "\<forall>v\<in>set svs. \<not> success v"
  proof (rule ccontr)
    assume "\<not> (\<forall>v\<in>set svs. \<not> success v)"
    then have ne: "map source_weight (filter success svs) \<noteq> []"
      by (auto simp: filter_empty_conv)
    have "0 < dp_total_weight svs"
      unfolding dp_total_weight_def
      by (rule foldl_fadd_pos[OF _ ne]) (use source_weight_bounds(1) in auto)
    with z show False by simp
  qed
next
  assume "\<forall>v\<in>set svs. \<not> success v"
  then have "filter success svs = []" by (simp add: filter_empty_conv)
  then show "dp_total_weight svs = 0" by (simp add: dp_total_weight_def)
qed

text \<open>
  The aggregates of the concrete inputs, operation by operation. The website validation
  of confidence 60 alone gives 60; with the registry validation of confidence 60 the sums
  are 33 and the double nearest to 0.55, and their quotient rounds to
  \<open>8444249301319679 / 140737488355328\<close>, the double below 60.
\<close>

lemma ex_factors:
  "calculate_freshness_factor (ex_clock_day100 i) (timestamp ex_sv_web60) = 1"
  "calculate_freshness_factor (ex_clock_day100 i) (timestamp ex_sv_npi60) = 1"
  "calculate_freshness_factor (ex_clock_day100 i) (timestamp ex_sv_recent) = 1"
  "calculate_freshness_factor (ex_clock_day100 i) (timestamp ex_sv_old) = fl 0.90"
  by (simp_all add: calculate_freshness_factor_def ex_clock_day100_def ex_sv_web60_def
      ex_sv_npi60_def ex_sv_recent_def ex_sv_old_def timedelta_hours_def timedelta_days_def)

lemma ex_weights:
  "source_weight ex_sv_web60 = 3602879701896397 / 18014398509481984"
  "source_weight ex_sv_npi60 = 3152519739159347 / 9007199254740992"
  "source_weight ex_sv_failed = 3602879701896397 / 18014398509481984"
  "source_weight ex_sv_recent = 3152519739159347 / 9007199254740992"
  "source_weight ex_sv_old = 1 / 4"
  by (simp_all add: source_weight_cases ex_sv_web60_def ex_sv_npi60_def ex_sv_failed_def
      ex_sv_recent_def ex_sv_old_def)

lemma ex_steps60:
  "fmul 60 1 = 60"
  "fmul (3602879701896397 / 18014398509481984) 60 = 12"
  "fmul (3152519739159347 / 9007199254740992) 60 = 21"
  "fadd 0 12 = 12"
  "fadd 12 21 = 33"
  "fadd 0 (3602879701896397 / 18014398509481984) = 3602879701896397 / 18014398509481984"
  "fadd (3602879701896397 / 18014398509481984) (3152519739159347 / 9007199254740992)
     = 2476979795053773 / 4503599627370496"
  "fdiv 12 (3602879701896397 / 18014398509481984) = 60"
  "fdiv 33 (2476979795053773 / 4503599627370496) = 8444249301319679 / 140737488355328"
  by (simp_all add: float_eval)

lemma ex_steps_failed:
  "fmul (3602879701896397 / 18014398509481984) 10 = 2"
  "fsub 12 2 = 10"
  "fadd 10 21 = 31"
  "fdiv 31 (2476979795053773 / 4503599627370496) = 3966238308195607 / 70368744177664"
  by (simp_all add: float_eval)

lemma ex_steps100:
  "fmul 100 1 = 100"
  "fmul 100 (fl 0.90) = 90"
  "fmul (3152519739159347 / 9007199254740992) 100 = 35"
  "fmul (1 / 4) 90 = 45 / 2"
  "fadd 0 35 = 35"
  "fadd 35 (45 / 2) = 115 / 2"
  "fadd 0 (3152519739159347 / 9007199254740992) = 3152519739159347 / 9007199254740992"
  "fadd (3152519739159347 / 9007199254740992) (1 / 4) = 5404319552844595 / 9007199254740992"
  "fdiv 35 (3152519739159347 / 9007199254740992) = 100"
  "fdiv (115 / 2) (5404319552844595 / 9007199254740992) = 3371835658513067 / 35184372088832"
  by (simp_all add: float_eval)

lemma ex_success:
  "success ex_sv_web60" "success ex_sv_npi60" "success ex_sv_recent" "success ex_sv_old"
  "\<not> success ex_sv_failed"
  by (simp_all add: ex_sv_web60_def ex_sv_npi60_def ex_sv_recent_def ex_sv_old_def ex_sv_failed_def)

lemma ex_conf:
  "sv_confidence ex_sv_web60 = 60" "sv_confidence ex_sv_npi60 = 60"
  "sv_confidence ex_sv_recent = 100" "sv_confidence ex_sv_old = 100"
  by (simp_all add: ex_sv_web60_def ex_sv_npi60_def ex_sv_recent_def ex_sv_old_def)

lemmas ex_eval = loop_success_step loop_failed_step ex_success ex_factors ex_weights ex_conf
  ex_steps60 ex_steps_failed ex_steps100 confidence_loop.simps(1)

lemma ex_loops:
  "confidence_loop ex_clock_day100 0 [ex_sv_web60] (0, 0)
     = (3602879701896397 / 18014398509481984, 12)"
  "confidence_loop ex_clock_day100 0 [ex_sv_web60, ex_sv_npi60] (0, 0)
     = (2476979795053773 / 4503599627370496, 33)"
  "confidence_loop ex_clock_day100 0 [ex_sv_web60, ex_sv_failed, ex_sv_npi60] (0, 0)
     = (2476979795053773 / 4503599627370496, 31)"
  "confidence_loop ex_clock_day100 0 [ex_sv_recent] (0, 0)
     = (3152519739159347 / 9007199254740992, 35)"
  "confidence_loop ex_clock_day100 0 [ex_sv_recent, ex_sv_old] (0, 0)
     = (5404319552844595 / 9007199254740992, 115 / 2)"
  by (simp_all only: ex_eval if_True if_False not_False_eq_True)

lemma ex_aggregates:
  "calculate_overall_confidence ex_clock_day100 [ex_sv_web60] = 60"
  "calculate_overall_confidence ex_clock_day100 [ex_sv_web60, ex_sv_npi60]
     = 8444249301319679 / 140737488355328"
  "calculate_overall_confidence ex_clock_day100 [ex_sv_web60, ex_sv_failed, ex_sv_npi60]
     = 3966238308195607 / 70368744177664"
  "calculate_overall_confidence ex_clock_day100 [ex_sv_recent] = 100"
  "calculate_overall_confidence ex_clock_day100 [ex_sv_recent, ex_sv_old]
     = 3371835658513067 / 35184372088832"
  unfolding calculate_overall_confidence_def ex_loops
  by (simp_all add: ex_steps60 ex_steps_failed ex_steps100)

text \<open>
  Claim C2. For every list of source validations \<open>calculate_overall_confidence\<close>
  returns the weighted sum divided by the total weight of the successful outcomes,
  clamped to the interval from 0 to 100. A successful outcome contributes weight times
  raw confidence times freshness factor, the factor being the step function 1.05, 1.02,
  1.00, 0.95, 0.90 of the age, and a failed one the penalty of weight times 10. For an
  empty list, and whenever the total weight of the successful outcomes is 0, the result
  is exactly 0; that total weight is 0 exactly when no outcome succeeded. The operations
  are those of double precision in the order of the program, as \<open>dp_weighted_sum\<close>
  and \<open>dp_total_weight\<close> have them.
\<close>

theorem calculate_overall_confidence_formula:
  "calculate_overall_confidence clock svs =
     (if svs = [] \<or> dp_total_weight svs = 0 then 0
      else clamp (fdiv (dp_weighted_sum clock svs) (dp_total_weight svs)) 0 100)
   \<and> (dp_total_weight svs = 0 \<longleftrightarrow> (\<forall>v\<in>set svs. \<not> success v))"
  unfolding clamp_def using calc_loop[of clock svs] dp_total_weight_zero_iff[of svs]
  by (rule conjI)

theorem calculate_overall_confidence_formula_witness:
  "\<not> (\<forall>v\<in>set [ex_sv_web60, ex_sv_failed, ex_sv_npi60]. \<not> success v)
   \<and> dp_total_weight [ex_sv_web60, ex_sv_failed, ex_sv_npi60] \<noteq> 0
   \<and> clamp (fdiv (dp_weighted_sum ex_clock_day100 [ex_sv_web60, ex_sv_failed, ex_sv_npi60])
               (dp_total_weight [ex_sv_web60, ex_sv_failed, ex_sv_npi60])) 0 100
       = 3966238308195607 / 70368744177664"
proof -
  let ?svs = "[ex_sv_web60, ex_sv_failed, ex_sv_npi60]"
  note f = calculate_overall_confidence_formula[of ex_clock_day100 ?svs]
  have s: "\<not> (\<forall>v\<in>set ?svs. \<not> success v)"
    by (simp add: ex_success)
  with f have nz: "dp_total_weight ?svs \<noteq> 0" by blast
  from f have "calculate_overall_confidence ex_clock_day100 ?svs
      = clamp (fdiv (dp_weighted_sum ex_clock_day100 ?svs) (dp_total_weight ?svs)) 0 100"
    using nz by simp
  then show ?thesis using s nz by (simp only: ex_aggregates simp_thms)
qed

text \<open>
  A failed outcome between \<open>xs\<close> and \<open>ys\<close>: it lowers the weighted sum reached after
  \<open>xs\<close> by its penalty, whatever its timestamp and the reading of the clock, and it is
  not among the outcomes whose weights are added up.
\<close>

lemma dp_weighted_sum_insert_failed:
  assumes "\<not> success v"
  shows "dp_weighted_sum clock (xs @ v # ys) =
     foldl (\<lambda>acc iv. fadd acc (dp_contribution clock iv))
       (fsub (dp_weighted_sum clock xs) (fmul (source_weight v) 10))
       (enumerate (Suc (length xs)) ys)"
  using assms
  by (simp add: dp_weighted_sum_def enumerate_append_eq dp_contribution_def fsub_fadd)

lemma dp_total_weight_insert_failed:
  "\<not> success v \<Longrightarrow> dp_total_weight (xs @ v # ys) = dp_total_weight (xs @ ys)"
  by (simp add: dp_total_weight_def)

lemma dp_weighted_sum_failed_timestamp:
  assumes "\<not> success v" "\<forall>i. i \<noteq> length xs \<longrightarrow> clock' i = clock i"
  shows "dp_weighted_sum clock' (xs @ v\<lparr>timestamp := t\<rparr> # ys) = dp_weighted_sum clock (xs @ v # ys)"
proof -
  have c: "dp_contribution clock' (i, x) = dp_contribution clock (i, x)" if "i \<noteq> length xs" for i x
    using that assms(2) by (simp add: dp_contribution_def)
  have f: "foldl (\<lambda>acc iv. fadd acc (dp_contribution clock' iv)) a zs
         = foldl (\<lambda>acc iv. fadd acc (dp_contribution clock iv)) a zs"
    if "\<forall>iv\<in>set zs. fst iv \<noteq> length xs" for a zs
    using that
  proof (induction zs arbitrary: a)
    case Nil
    show ?case by simp
  next
    case (Cons z zs)
    obtain i x where z: "z = (i, x)" by (cases z)
    show ?case using Cons by (simp add: z c)
  qed
  have 1: "\<forall>iv\<in>set (enumerate 0 xs). fst iv \<noteq> length xs"
    by (auto simp: in_set_enumerate_eq)
  have 2: "\<forall>iv\<in>set (enumerate (Suc (length xs)) ys). fst iv \<noteq> length xs"
    by (auto simp: in_set_enumerate_eq)
  have s: "\<not> success (v\<lparr>timestamp := t\<rparr>)" using assms(1) by simp
  have w: "source_weight (v\<lparr>timestamp := t\<rparr>) = source_weight v"
    by (simp add: source_weight_def)
  show ?thesis
    unfolding dp_weighted_sum_insert_failed[OF s] dp_weighted_sum_insert_failed[OF assms(1)] w
    by (simp add: f[OF 2] dp_weighted_sum_def f[OF 1])
qed

text \<open>
  Claim C6. A failed outcome, wherever it stands in the list, subtracts the penalty of
  weight times 10 from the running weighted sum and leaves the running total weight as
  it is. The aggregate of a list with a failed outcome \<open>v\<close> between \<open>xs\<close> and \<open>ys\<close>
  divides by the total weight of the successful outcomes of \<open>xs\<close> and \<open>ys\<close>, which the
  weight of \<open>v\<close> does not enter; its numerator is the weighted sum of \<open>xs\<close>, less the
  penalty, continued over \<open>ys\<close>. The penalty is 3.5, 2.5, 2, 1.5 or 0.5 according to the
  source alone: no freshness factor is applied to it, and another timestamp of the failed
  outcome, or another reading of the clock at its position, leaves the aggregate as it is.
\<close>

theorem failed_validation_penalty:
  assumes "\<not> success v"
  shows "confidence_loop clock i (v # rest) (total_weight, weighted_confidence) =
           confidence_loop clock (Suc i) rest
             (total_weight, fsub weighted_confidence (fmul (source_weight v) 10))
    \<and> calculate_overall_confidence clock (xs @ v # ys) =
         (if dp_total_weight (xs @ ys) = 0 then 0
          else clamp
                 (fdiv (foldl (\<lambda>acc iv. fadd acc (dp_contribution clock iv))
                          (fsub (dp_weighted_sum clock xs) (fmul (source_weight v) 10))
                          (enumerate (Suc (length xs)) ys))
                       (dp_total_weight (xs @ ys)))
                 0 100)
    \<and> fmul (source_weight v) 10 =
         (case sv_source v of
            NPI_REGISTRY \<Rightarrow> 3.5 | GOOGLE_PLACES \<Rightarrow> 2.5 | PRACTICE_WEBSITE \<Rightarrow> 2
          | STATE_LICENSE \<Rightarrow> 1.5 | PDF_DOCUMENT \<Rightarrow> 0.5)
    \<and> ((\<forall>j. j \<noteq> length xs \<longrightarrow> clock' j = clock j) \<longrightarrow>
         calculate_overall_confidence clock' (xs @ v\<lparr>timestamp := t\<rparr> # ys) =
         calculate_overall_confidence clock (xs @ v # ys))"
proof -
  have 1: "confidence_loop clock i (v # rest) (total_weight, weighted_confidence) =
           confidence_loop clock (Suc i) rest
             (total_weight, fsub weighted_confidence (fmul (source_weight v) 10))"
    using assms by (rule loop_failed_step)
  have 2: "calculate_overall_confidence clock (xs @ v # ys) =
         (if dp_total_weight (xs @ ys) = 0 then 0
          else clamp
                 (fdiv (foldl (\<lambda>acc iv. fadd acc (dp_contribution clock iv))
                          (fsub (dp_weighted_sum clock xs) (fmul (source_weight v) 10))
                          (enumerate (Suc (length xs)) ys))
                       (dp_total_weight (xs @ ys)))
                 0 100)"
    unfolding calc_loop dp_total_weight_insert_failed[OF assms]
      dp_weighted_sum_insert_failed[OF assms] clamp_def
    by simp
  have 3: "fmul (source_weight v) 10 =
         (case sv_source v of
            NPI_REGISTRY \<Rightarrow> 3.5 | GOOGLE_PLACES \<Rightarrow> 2.5 | PRACTICE_WEBSITE \<Rightarrow> 2
          | STATE_LICENSE \<Rightarrow> 1.5 | PDF_DOCUMENT \<Rightarrow> 0.5)"
    by (rule penalty_values)
  have 4: "(\<forall>j. j \<noteq> length xs \<longrightarrow> clock' j = clock j) \<longrightarrow>
         calculate_overall_confidence clock' (xs @ v\<lparr>timestamp := t\<rparr> # ys) =
         calculate_overall_confidence clock (xs @ v # ys)"
  proof
    assume c: "\<forall>j. j \<noteq> length xs \<longrightarrow> clock' j = clock j"
    have s: "\<not> success (v\<lparr>timestamp := t\<rparr>)" using assms by simp
    show "calculate_overall_confidence clock' (xs @ v\<lparr>timestamp := t\<rparr> # ys) =
         calculate_overall_confidence clock (xs @ v # ys)"
      unfolding calc_loop dp_weighted_sum_failed_timestamp[OF assms c]
        dp_total_weight_insert_failed[OF assms] dp_total_weight_insert_failed[OF s]
      by simp
  qed
  show ?thesis by (rule conjI[OF 1 conjI[OF 2 conjI[OF 3 4]]])
qed

theorem failed_validation_penalty_witness:
  "\<not> success ex_sv_failed
   \<and> dp_total_weight ([ex_sv_web60] @ [ex_sv_npi60]) \<noteq> 0
   \<and> fmul (source_weight ex_sv_failed) 10 = 2
   \<and> clamp
        (fdiv (foldl (\<lambda>acc iv. fadd acc (dp_contribution ex_clock_day100 iv))
                 (fsub (dp_weighted_sum ex_clock_day100 [ex_sv_web60])
                    (fmul (source_weight ex_sv_failed) 10))
                 (enumerate (Suc (length [ex_sv_web60])) [ex_sv_npi60]))
              (dp_total_weight ([ex_sv_web60] @ [ex_sv_npi60])))
        0 100
       = 3966238308195607 / 70368744177664
   \<and> calculate_overall_confidence ex_clock_day100
        ([ex_sv_web60] @ ex_sv_failed\<lparr>timestamp := 99 * 86400000000\<rparr> # [ex_sv_npi60])
       = 3966238308195607 / 70368744177664"
proof -
  have s: "\<not> success ex_sv_failed" by (rule ex_success)
  note p = failed_validation_penalty[OF s, of ex_clock_day100 0 "[]" 0 0
      "[ex_sv_web60]" "[ex_sv_npi60]" ex_clock_day100 "99 * 86400000000"]
  have c: "\<forall>j. j \<noteq> length [ex_sv_web60] \<longrightarrow> ex_clock_day100 j = ex_clock_day100 j"
    by simp
  have nz: "dp_total_weight ([ex_sv_web60] @ [ex_sv_npi60]) \<noteq> 0"
    by (simp add: dp_total_weight_zero_iff ex_success)
  have a: "calculate_overall_confidence ex_clock_day100 ([ex_sv_web60] @ ex_sv_failed # [ex_sv_npi60])
      = 3966238308195607 / 70368744177664"
    by (simp add: ex_aggregates)
  have src: "sv_source ex_sv_failed = PRACTICE_WEBSITE" by (simp add: ex_sv_failed_def)
  from p have 3: "fmul (source_weight ex_sv_failed) 10 = 2"
    by (simp add: src)
  from p nz a have 2: "clamp
        (fdiv (foldl (\<lambda>acc iv. fadd acc (dp_contribution ex_clock_day100 iv))
                 (fsub (dp_weighted_sum ex_clock_day100 [ex_sv_web60])
                    (fmul (source_weight ex_sv_failed) 10))
                 (enumerate (Suc (length [ex_sv_web60])) [ex_sv_npi60]))
              (dp_total_weight ([ex_sv_web60] @ [ex_sv_npi60])))
        0 100
       = 3966238308195607 / 70368744177664"
    by (simp only: if_False)
  from p c a have 4: "calculate_overall_confidence ex_clock_day100
        ([ex_sv_web60] @ ex_sv_failed\<lparr>timestamp := 99 * 86400000000\<rparr> # [ex_sv_npi60])
       = 3966238308195607 / 70368744177664"
    by (simp only:)
  show ?thesis by (rule conjI[OF s conjI[OF nz conjI[OF 3 conjI[OF 2 4]]]])
qed

text \<open>
  Appending a successful outcome. Five roundings separate the two aggregates (the
  quotient before; the product with the weight, the two sums and the quotient after),
  each with a relative error of at most \<open>2^(-53)\<close>; on a value of at most 100 they
  amount to less than \<open>10^(-13)\<close>.
\<close>

lemma core_abstract:
  fixes u :: real
  assumes u: "0 \<le> u" "u < 1"
    and W: "0 < W" and w: "0 < w" and W1: "0 < W1"
    and old: "0 \<le> old" "old \<le> q" "old \<le> a"
    and q: "q \<le> (S / W) * (1 + u)"
    and t: "w * a * (1 - u) \<le> t"
    and S1: "(S + t) * (1 - u) \<le> S1"
    and W1u: "W1 \<le> (W + w) * (1 + u)"
  shows "old * ((1 - u) ^ 2 / (1 + u) ^ 2) \<le> S1 / W1"
proof -
  define c where "c = old / (1 + u)"
  have up: "0 < 1 + u" "0 \<le> 1 - u" "1 - u \<le> 1" using u by simp_all
  have c0: "0 \<le> c" using old(1) up by (simp add: c_def)
  have c_old: "c \<le> old"
  proof -
    have "old / (1 + u) \<le> old / 1"
      using old(1) u by (intro divide_left_mono) simp_all
    then show ?thesis by (simp add: c_def)
  qed
  have "old \<le> (S / W) * (1 + u)" using old(2) q by linarith
  then have cz: "c \<le> S / W"
    using up(1) by (simp add: c_def pos_divide_le_eq)
  have "c * W \<le> (S / W) * W"
    using cz W by (intro mult_right_mono) simp_all
  then have S: "c * W \<le> S" using W by simp
  have ca: "c \<le> a" using c_old old(3) by linarith
  have "w * c * (1 - u) \<le> w * a * (1 - u)"
    using ca w up(2) by (intro mult_right_mono mult_left_mono) simp_all
  then have t': "w * c * (1 - u) \<le> t" using t by linarith
  have "c * W * (1 - u) \<le> c * W * 1"
    using c0 W up by (intro mult_left_mono) simp_all
  then have "c * W * (1 - u) \<le> S" using S by simp
  with t' have "c * W * (1 - u) + w * c * (1 - u) \<le> S + t" by linarith
  then have St: "c * (1 - u) * (W + w) \<le> S + t" by (simp add: algebra_simps)
  have "c * (1 - u) * (W + w) * (1 - u) \<le> (S + t) * (1 - u)"
    using St up(2) by (intro mult_right_mono)
  then have S1': "c * (1 - u) * (W + w) * (1 - u) \<le> S1" using S1 by linarith
  have num0: "0 \<le> c * (1 - u) * (W + w) * (1 - u)"
    using c0 up(2) W w by simp
  have "c * (1 - u) * (W + w) * (1 - u) / ((W + w) * (1 + u)) \<le> S1 / W1"
    using S1' num0 W1 W1u by (intro frac_le) simp_all
  moreover have "c * (1 - u) * (W + w) * (1 - u) / ((W + w) * (1 + u)) = c * (1 - u) ^ 2 / (1 + u)"
  proof -
    define k where "k = W + w"
    have "k \<noteq> 0" using W w by (simp add: k_def)
    then have "c * (1 - u) * k * (1 - u) / (k * (1 + u)) = c * (1 - u) ^ 2 / (1 + u)"
      by (simp add: power2_eq_square)
    then show ?thesis by (simp add: k_def)
  qed
  ultimately have "c * (1 - u) ^ 2 / (1 + u) \<le> S1 / W1" by simp
  moreover have "c * (1 - u) ^ 2 / (1 + u) = old * ((1 - u) ^ 2 / (1 + u) ^ 2)"
    using up(1) by (simp add: c_def power2_eq_square)
  ultimately show ?thesis by simp
qed

lemma rounding_floor: "(1::real) / 10 ^ 20 \<le> 1 / 10 ^ 13 * ((1 - 1 / 2 ^ 53) ^ 2 / (1 + 1 / 2 ^ 53) ^ 2)"
  by (simp add: power2_eq_square)

lemma rounding_loss: "100 * (1 - (1 - 1 / 2 ^ 53) ^ 3 / (1 + 1 / 2 ^ 53) ^ 2) \<le> (1::real) / 10 ^ 13"
  by (simp add: power2_eq_square power3_eq_cube)

lemma append_core:
  assumes W: "0 \<le> W" and w: "1 / 25 \<le> w"
    and a: "(if W = 0 then 0 else max 0 (min 100 (fdiv S W))) \<le> a"
  shows "(if W = 0 then 0 else max 0 (min 100 (fdiv S W))) - 1 / 10 ^ 13
           \<le> (if fadd W w = 0 then 0
               else max 0 (min 100 (fdiv (fadd S (fmul w a)) (fadd W w))))"
proof -
  define old where "old = (if W = 0 then 0 else max 0 (min 100 (fdiv S W)))"
  define new where "new = (if fadd W w = 0 then 0
               else max 0 (min 100 (fdiv (fadd S (fmul w a)) (fadd W w))))"
  define eps :: real where "eps = 1 / 10 ^ 13"
  define u :: real where "u = 1 / 2 ^ 53"
  define tiny :: real where "tiny = 1 / 10 ^ 20"
  define r2 where "r2 = (1 - u) ^ 2 / (1 + u) ^ 2"
  have u: "0 \<le> u" "u < 1" by (simp_all add: u_def)
  have eps0: "0 < eps" by (simp add: eps_def)
  have tiny0: "0 < tiny" by (simp add: tiny_def)
  have new0: "0 \<le> new" by (simp add: new_def)
  have old0: "0 \<le> old" and old100: "old \<le> 100" by (simp_all add: old_def)
  have olda: "old \<le> a" using a by (simp add: old_def)
  have "old - eps \<le> new"
  proof (cases "old \<le> eps")
    case True
    with new0 show ?thesis by linarith
  next
    case False
    then have big: "eps < old" by simp
    have W0: "W \<noteq> 0" using big eps0 by (auto simp: old_def)
    with W have Wpos: "0 < W" by simp
    define q where "q = fl (S / W)"
    have oldq: "old = max 0 (min 100 q)" using W0 by (simp add: old_def q_def fdiv_def)
    have qbig: "eps < q" using big eps0 unfolding oldq by auto
    have old_le_q: "old \<le> q" using big eps0 unfolding oldq by auto
    have "1 / 10 ^ 13 < fl (S / W)" using qbig by (simp add: q_def eps_def)
    then have z14: "1 / 10 ^ 14 \<le> S / W" by (rule fl_large)
    have "(1::real) / 10 ^ 20 \<le> 1 / 10 ^ 14" by simp
    then have z20: "1 / 10 ^ 20 \<le> S / W" using z14 by (rule order_trans)
    have qz: "q \<le> (S / W) * (1 + u)"
      unfolding q_def u_def by (rule fl_upper[OF z20])
    have wpos: "0 < w"
    proof -
      have "(0::real) < 1 / 25" by simp
      then show ?thesis using w by (rule less_le_trans)
    qed
    have abig: "eps \<le> a" using big olda by linarith
    have wa: "1 / 25 * eps \<le> w * a"
      using w abig eps0 by (intro mult_mono) simp_all
    have "tiny \<le> 1 / 25 * eps" by (simp add: tiny_def eps_def)
    then have wa20: "1 / 10 ^ 20 \<le> w * a" using wa unfolding tiny_def by (rule order_trans)
    define t where "t = fl (w * a)"
    have t: "w * a * (1 - u) \<le> t"
      unfolding t_def u_def by (rule fl_lower[OF wa20])
    have "0 < S / W"
    proof -
      have "(0::real) < 1 / 10 ^ 14" by simp
      then show ?thesis using z14 by (rule less_le_trans)
    qed
    then have Spos: "0 < S" using Wpos by (simp add: zero_less_divide_iff)
    have "1 / 25 * eps * (1 - u) \<le> w * a * (1 - u)"
      using wa u by (intro mult_right_mono) simp_all
    moreover have "tiny \<le> 1 / 25 * eps * (1 - u)" by (simp add: tiny_def eps_def u_def)
    ultimately have "tiny \<le> t" using t by linarith
    then have "tiny \<le> S + t" using Spos by linarith
    then have St20: "1 / 10 ^ 20 \<le> S + t" by (simp only: tiny_def)
    define S1 where "S1 = fl (S + t)"
    have S1: "(S + t) * (1 - u) \<le> S1"
      unfolding S1_def u_def by (rule fl_lower[OF St20])
    have "(1::real) / 10 ^ 20 \<le> 1 / 25" by simp
    also have "\<dots> \<le> W + w" using W w by linarith
    finally have Ww20: "1 / 10 ^ 20 \<le> W + w" .
    define W1 where "W1 = fl (W + w)"
    have W1u: "W1 \<le> (W + w) * (1 + u)"
      unfolding W1_def u_def by (rule fl_upper[OF Ww20])
    have W1pos: "0 < W1" unfolding W1_def by (rule fl_pos[OF Ww20])
    have ratio: "old * r2 \<le> S1 / W1"
      unfolding r2_def
      by (rule core_abstract[OF u Wpos wpos W1pos old0 old_le_q olda qz t S1 W1u])
    have r2pos: "0 \<le> r2" using u by (simp add: r2_def)
    have "eps * r2 \<le> old * r2"
      using big r2pos by (intro mult_right_mono) simp_all
    moreover have "tiny \<le> eps * r2"
      unfolding tiny_def eps_def r2_def u_def by (rule rounding_floor)
    ultimately have "tiny \<le> S1 / W1" using ratio by linarith
    then have R20: "1 / 10 ^ 20 \<le> S1 / W1" by (simp only: tiny_def)
    define q' where "q' = fl (S1 / W1)"
    have q': "(S1 / W1) * (1 - u) \<le> q'"
      unfolding q'_def u_def by (rule fl_lower[OF R20])
    have "old * r2 * (1 - u) \<le> (S1 / W1) * (1 - u)"
      using ratio u by (intro mult_right_mono) simp_all
    then have q'low: "old * (r2 * (1 - u)) \<le> q'" using q' by (simp add: mult.assoc)
    define r3 where "r3 = r2 * (1 - u)"
    have r3: "r3 = (1 - u) ^ 3 / (1 + u) ^ 2"
      by (simp add: r3_def r2_def power2_eq_square power3_eq_cube)
    have loss: "100 * (1 - r3) \<le> eps"
      unfolding r3 u_def eps_def by (rule rounding_loss)
    have r3le: "r3 \<le> 1"
    proof -
      have "r2 \<le> 1" using u by (simp add: r2_def power2_eq_square frac_le mult_mono)
      then have "r2 * (1 - u) \<le> 1 * 1" using u r2pos by (intro mult_mono) simp_all
      then show ?thesis by (simp add: r3_def)
    qed
    have "old * (1 - r3) \<le> 100 * (1 - r3)"
      using old100 r3le by (intro mult_right_mono) simp_all
    then have "old - old * r3 \<le> eps" using loss by (simp add: algebra_simps)
    then have low: "old - eps \<le> old * r3" by linarith
    have q'low': "old * r3 \<le> q'" using q'low by (simp add: r3_def)
    have "old * r3 \<le> old * 1" using old0 r3le by (intro mult_left_mono) simp_all
    then have "old * r3 \<le> 100" using old100 by simp
    then have "old * r3 \<le> min 100 q'" using q'low' by simp
    then have "old * r3 \<le> max 0 (min 100 q')" by (rule max.coboundedI2)
    moreover have "new = max 0 (min 100 q')"
      using W1pos by (simp add: new_def q'_def S1_def t_def W1_def fadd_def fmul_def fdiv_def)
    ultimately show ?thesis using low by linarith
  qed
  then show ?thesis by (simp only: old_def new_def eps_def)
qed

text \<open>
  Claim C7, as amended. When a successful outcome is appended whose freshness-adjusted
  confidence (the raw confidence times the freshness factor, rounded, as the loop computes
  it) is at least the current aggregate, the aggregate does not decrease by more than
  \<open>10^(-13)\<close>.
\<close>

theorem adding_success_monotone:
  assumes "success v"
    and "calculate_overall_confidence clock svs
           \<le> fmul (sv_confidence v)
                (calculate_freshness_factor (clock (length svs)) (timestamp v))"
  shows "calculate_overall_confidence clock svs - 1 / 10 ^ 13
           \<le> calculate_overall_confidence clock (svs @ [v])"
proof -
  define W where "W = dp_total_weight svs"
  define S where "S = dp_weighted_sum clock svs"
  define w where "w = source_weight v"
  define a where "a = fmul (sv_confidence v)
                (calculate_freshness_factor (clock (length svs)) (timestamp v))"
  have old: "calculate_overall_confidence clock svs
      = (if W = 0 then 0 else max 0 (min 100 (fdiv S W)))"
    by (cases "svs = []") (simp_all add: calc_loop W_def S_def dp_total_weight_def)
  have "confidence_loop clock 0 (svs @ [v]) (0, 0) = (fadd W w, fadd S (fmul w a))"
    by (simp only: confidence_loop_append confidence_loop_closed loop_success_step[OF assms(1)]
        confidence_loop.simps(1) W_def S_def w_def a_def add_0)
  then have new: "calculate_overall_confidence clock (svs @ [v])
      = (if fadd W w = 0 then 0 else max 0 (min 100 (fdiv (fadd S (fmul w a)) (fadd W w))))"
    by (simp add: calculate_overall_confidence_def)
  have W0: "0 \<le> W" unfolding W_def by (rule dp_total_weight_nonneg)
  have w: "1 / 25 \<le> w" unfolding w_def by (rule source_weight_bounds(1))
  have le: "(if W = 0 then 0 else max 0 (min 100 (fdiv S W))) \<le> a"
    using assms(2) unfolding old a_def .
  show ?thesis
    unfolding old new by (rule append_core[OF W0 w le])
qed

text \<open>
  The claim as first stated fails in two ways. The raw confidence is not what enters the
  sum: the aggregate of a recent registry validation of confidence 100 is 100, and
  appending a listing validation of raw confidence 100 that is 100 days old (factor 0.90)
  lowers it to \<open>3371835658513067 / 35184372088832\<close>, about 95.83. And the rounded
  operations are not monotone: the aggregate of the website validation of confidence 60 is
  60, and appending the registry validation of confidence 60 (factor 1, adjusted
  confidence 60) gives \<open>8444249301319679 / 140737488355328\<close>, the double below 60.
\<close>

theorem adding_success_monotone_counterexample:
  "success ex_sv_old
   \<and> calculate_overall_confidence ex_clock_day100 [ex_sv_recent] \<le> sv_confidence ex_sv_old
   \<and> 0 \<le> source_weight ex_sv_old
   \<and> 0 \<le> calculate_freshness_factor (ex_clock_day100 1) (timestamp ex_sv_old)
   \<and> calculate_overall_confidence ex_clock_day100 ([ex_sv_recent] @ [ex_sv_old])
       < calculate_overall_confidence ex_clock_day100 [ex_sv_recent]
   \<and> success ex_sv_npi60
   \<and> calculate_overall_confidence ex_clock_day100 [ex_sv_web60] \<le> sv_confidence ex_sv_npi60
   \<and> calculate_overall_confidence ex_clock_day100 [ex_sv_web60]
       \<le> fmul (sv_confidence ex_sv_npi60)
            (calculate_freshness_factor (ex_clock_day100 1) (timestamp ex_sv_npi60))
   \<and> 0 \<le> source_weight ex_sv_npi60
   \<and> 0 \<le> calculate_freshness_factor (ex_clock_day100 1) (timestamp ex_sv_npi60)
   \<and> calculate_overall_confidence ex_clock_day100 ([ex_sv_web60] @ [ex_sv_npi60])
       < calculate_overall_confidence ex_clock_day100 [ex_sv_web60]"
  by (simp add: ex_success ex_conf ex_aggregates ex_factors ex_steps60 source_weight_nonneg
      fl_nonneg)

theorem adding_success_monotone_witness:
  "success ex_sv_npi60
   \<and> calculate_overall_confidence ex_clock_day100 [ex_sv_web60]
       \<le> fmul (sv_confidence ex_sv_npi60)
            (calculate_freshness_factor (ex_clock_day100 (length [ex_sv_web60]))
               (timestamp ex_sv_npi60))
   \<and> calculate_overall_confidence ex_clock_day100 [ex_sv_web60] = 60
   \<and> 60 - 1 / 10 ^ 13 \<le> calculate_overall_confidence ex_clock_day100 ([ex_sv_web60] @ [ex_sv_npi60])"
proof -
  have s: "success ex_sv_npi60" by (rule ex_success)
  have v: "calculate_overall_confidence ex_clock_day100 [ex_sv_web60] = 60"
    by (rule ex_aggregates)
  have h: "calculate_overall_confidence ex_clock_day100 [ex_sv_web60]
       \<le> fmul (sv_confidence ex_sv_npi60)
            (calculate_freshness_factor (ex_clock_day100 (length [ex_sv_web60]))
               (timestamp ex_sv_npi60))"
    by (simp add: ex_aggregates ex_conf ex_factors ex_steps60)
  from adding_success_monotone[OF s h]
  have "60 - 1 / 10 ^ 13 \<le> calculate_overall_confidence ex_clock_day100 ([ex_sv_web60] @ [ex_sv_npi60])"
    by (simp only: v)
  with s h v show ?thesis by (intro conjI)
qed

section \<open>Properties of the batch stages\<close>












text \<open>
  Inside \<open>validate_provider\<close> an exception of a source call becomes a failed validation
  of that source; the other sources keep their results.
\<close>

lemma validate_provider_default:
  "validate_provider svc now p None =
     [(''npi_registry'', case npi_service svc p of
                           Inl e \<Rightarrow> failed_validation NPI_REGISTRY e now | Inr v \<Rightarrow> v),
      (''google_places'', case google_service svc p of
                            Inl e \<Rightarrow> failed_validation GOOGLE_PLACES e now | Inr v \<Rightarrow> v),
      (''practice_website'', case web_scraper svc p of
                               Inl e \<Rightarrow> failed_validation PRACTICE_WEBSITE e now | Inr v \<Rightarrow> v)]"
  by (simp add: validate_provider_def List.map_filter_simps store_source_result_def
      split: sum.split)





section \<open>Properties of the orchestrator\<close>

lemma then_step_cases:
  assumes "then_step f g s0 = (s, x)"
  shows "(f s0 = (s, x) \<and> x \<noteq> None) \<or> (\<exists>s1. f s0 = (s1, None) \<and> g s1 = (s, x))"
  using assms by (auto simp: then_step_def split: prod.splits option.splits)

lemma stage_data_validation_effect:
  assumes "stage_data_validation env providers s0 = (s, x)"
  shows "res_errors (res s) = res_errors (res s0)
       \<and> (x \<noteq> None \<longrightarrow> current_stage (orch s) = Some ''data_validation'')"
  using assms
  by (auto simp: stage_data_validation_def set_stage_def set_timing_def Let_def
      split: option.splits sum.splits)

lemma stage_enrichment_effect:
  assumes "stage_enrichment env providers s0 = (s, x)"
  shows "res_errors (res s) = res_errors (res s0)
       \<and> (x \<noteq> None \<longrightarrow> current_stage (orch s) = Some ''enrichment'')"
  using assms
  by (auto simp: stage_enrichment_def set_stage_def set_timing_def Let_def
      split: option.splits sum.splits if_splits)

lemma stage_quality_assessment_effect:
  assumes "stage_quality_assessment env providers s0 = (s, x)"
  shows "res_errors (res s) = res_errors (res s0)
       \<and> (x \<noteq> None \<longrightarrow> current_stage (orch s) = Some ''quality_assessment'')"
  using assms
  by (auto simp: stage_quality_assessment_def set_stage_def set_timing_def Let_def
      split: option.splits sum.splits)

lemma stage_directory_management_effect:
  assumes "stage_directory_management env providers s0 = (s, x)"
  shows "res_errors (res s) = res_errors (res s0)
       \<and> (x \<noteq> None \<longrightarrow> current_stage (orch s) = Some ''directory_management'')"
  using assms
  by (auto simp: stage_directory_management_def set_stage_def set_timing_def Let_def
      split: option.splits sum.splits)

lemma stage_export_effect:
  assumes "stage_export env providers s0 = (s, x)"
  shows "res_errors (res s) = res_errors (res s0) \<and> current_stage (orch s) = current_stage (orch s0)"
  using assms
  by (auto simp: stage_export_def split: sum.splits if_splits)

lemma stage_finalize_effect:
  assumes "stage_finalize env providers s0 = (s, x)"
  shows "res_errors (res s) = res_errors (res s0) \<and> current_stage (orch s) = current_stage (orch s0)"
  using assms
  by (auto simp: stage_finalize_def store_last_run_def set_timing_def Let_def split: option.splits)

lemma stage_reporting_effect:
  assumes "stage_reporting env providers s0 = (s, x)"
  shows "res_errors (res s) = res_errors (res s0)
       \<and> (x \<noteq> None \<longrightarrow> current_stage (orch s) = Some ''reporting'')"
proof (cases "report_progress env ''Generating Report''")
  case (Some e)
  with assms show ?thesis
    by (auto simp: stage_reporting_def set_stage_def Let_def)
next
  case None
  define s2 where "s2 = set_timing env ''reporting''
      ((set_stage ''reporting'' s0)\<lparr>res := (res (set_stage ''reporting'' s0))\<lparr>res_report :=
         Some (generate_validation_report (report_now env) providers
                 (local_validation_results (set_stage ''reporting'' s0))
                 (stage_elapsed env ''total''))\<rparr>\<rparr>)"
  have s2: "res_errors (res s2) = res_errors (res s0)" "current_stage (orch s2) = Some ''reporting''"
    by (simp_all add: s2_def set_timing_def set_stage_def)
  from assms None have "then_step (stage_export env providers) (stage_finalize env providers) s2 = (s, x)"
    by (simp add: stage_reporting_def Let_def s2_def)
  from then_step_cases[OF this] show ?thesis
    using s2 stage_export_effect stage_finalize_effect by metis
qed

lemma then_step_effect:
  assumes f: "\<And>a b y. f a = (b, y) \<Longrightarrow>
                res_errors (res b) = res_errors (res a)
                \<and> (y \<noteq> None \<longrightarrow> current_stage (orch b) \<in> N)"
    and g: "\<And>a b y. g a = (b, y) \<Longrightarrow>
                res_errors (res b) = res_errors (res a)
                \<and> (y \<noteq> None \<longrightarrow> current_stage (orch b) \<in> N)"
    and t: "then_step f g a = (b, y)"
  shows "res_errors (res b) = res_errors (res a)
         \<and> (y \<noteq> None \<longrightarrow> current_stage (orch b) \<in> N)"
proof -
  from then_step_cases[OF t] consider "f a = (b, y)" | s1 where "f a = (s1, None)" "g s1 = (b, y)"
    by blast
  then show ?thesis
  proof cases
    case 1
    then show ?thesis by (rule f)
  next
    case 2
    from f[OF 2(1)] g[OF 2(2)] show ?thesis by simp
  qed
qed

lemma try_block_effect:
  assumes "try_block env providers s0 = (s, x)"
  shows "res_errors (res s) = res_errors (res s0)
       \<and> (x \<noteq> None \<longrightarrow>
            current_stage (orch s) \<in> Some ` {''data_validation'', ''enrichment'',
               ''quality_assessment'', ''directory_management'', ''reporting''})"
proof -
  let ?N = "Some ` {''data_validation'', ''enrichment'',
               ''quality_assessment'', ''directory_management'', ''reporting''}"
  let ?st4 = "then_step (stage_directory_management env providers) (stage_reporting env providers)"
  let ?st3 = "then_step (stage_quality_assessment env providers) ?st4"
  let ?st2 = "then_step (stage_enrichment env providers) ?st3"
  have e1: "res_errors (res b) = res_errors (res a) \<and> (y \<noteq> None \<longrightarrow> current_stage (orch b) \<in> ?N)"
    if "stage_data_validation env providers a = (b, y)" for a b y
    using stage_data_validation_effect[OF that] by simp
  have e2: "res_errors (res b) = res_errors (res a) \<and> (y \<noteq> None \<longrightarrow> current_stage (orch b) \<in> ?N)"
    if "stage_enrichment env providers a = (b, y)" for a b y
    using stage_enrichment_effect[OF that] by simp
  have e3: "res_errors (res b) = res_errors (res a) \<and> (y \<noteq> None \<longrightarrow> current_stage (orch b) \<in> ?N)"
    if "stage_quality_assessment env providers a = (b, y)" for a b y
    using stage_quality_assessment_effect[OF that] by simp
  have e4: "res_errors (res b) = res_errors (res a) \<and> (y \<noteq> None \<longrightarrow> current_stage (orch b) \<in> ?N)"
    if "stage_directory_management env providers a = (b, y)" for a b y
    using stage_directory_management_effect[OF that] by simp
  have e5: "res_errors (res b) = res_errors (res a) \<and> (y \<noteq> None \<longrightarrow> current_stage (orch b) \<in> ?N)"
    if "stage_reporting env providers a = (b, y)" for a b y
    using stage_reporting_effect[OF that] by simp
  have e45: "res_errors (res b) = res_errors (res a) \<and> (y \<noteq> None \<longrightarrow> current_stage (orch b) \<in> ?N)"
    if "?st4 a = (b, y)" for a b y
    using e4 e5 that by (rule then_step_effect)
  have e345: "res_errors (res b) = res_errors (res a) \<and> (y \<noteq> None \<longrightarrow> current_stage (orch b) \<in> ?N)"
    if "?st3 a = (b, y)" for a b y
    using e3 e45 that by (rule then_step_effect)
  have e2345: "res_errors (res b) = res_errors (res a) \<and> (y \<noteq> None \<longrightarrow> current_stage (orch b) \<in> ?N)"
    if "?st2 a = (b, y)" for a b y
    using e2 e345 that by (rule then_step_effect)
  from assms have "then_step (stage_data_validation env providers) ?st2 s0 = (s, x)"
    unfolding try_block_def .
  with e1 e2345 show ?thesis
    by (rule then_step_effect)
qed

lemma start_state_errors: "res_errors (res (start_state env self)) = []"
  by (simp add: start_state_def initial_results_def)

lemma run_full_validation_raised:
  assumes "try_block env providers (start_state env self) = (s, Some e)"
    and "report_progress env ''Error'' = None"
  shows "run_full_validation env self providers
         = ((orch s)\<lparr>is_running := False, current_stage := None\<rparr>,
            Inr ((res s)\<lparr>res_errors := [\<lparr>err_stage = current_stage (orch s),
                                          err_error = exn_str e,
                                          err_timestamp = error_now env\<rparr>]\<rparr>))"
proof -
  have "res_errors (res s) = []"
    using try_block_effect[OF assms(1)] by (simp add: start_state_errors)
  then show ?thesis
    using assms by (simp add: run_full_validation_def except_clause_def Let_def)
qed

lemma run_full_validation_completed:
  assumes "try_block env providers (start_state env self) = (s, None)"
  shows "run_full_validation env self providers
         = ((orch s)\<lparr>is_running := False, current_stage := None\<rparr>, Inr (res s))
       \<and> res_errors (res s) = []"
  using assms try_block_effect[OF assms]
  by (simp add: run_full_validation_def start_state_errors)

lemmas orchestrator_defs =
  run_full_validation_def try_block_def then_step_def stage_data_validation_def
  stage_enrichment_def stage_quality_assessment_def stage_directory_management_def
  stage_reporting_def stage_export_def stage_finalize_def except_clause_def start_state_def
  set_stage_def set_timing_def store_last_run_def initial_results_def Let_def

lemma failure_in_data_validation:
  assumes "\<forall>label. report_progress env label = None"
    and "validate_batch_call env providers = Inl e"
  shows "snd (run_full_validation env self providers)
         = Inr (initial_results\<lparr>res_errors :=
                  [\<lparr>err_stage = Some ''data_validation'', err_error = exn_str e,
                    err_timestamp = error_now env\<rparr>]\<rparr>)"
  using assms by (simp add: orchestrator_defs)

lemma failure_in_enrichment:
  assumes "\<forall>label. report_progress env label = None"
    and "enable_enrichment (orch_config self)"
    and "validate_batch_call env providers = Inr svs"
    and "enrich_batch_call env providers = Inl e"
  shows "snd (run_full_validation env self providers)
         = Inr (initial_results\<lparr>
                  res_errors := [\<lparr>err_stage = Some ''enrichment'', err_error = exn_str e,
                                  err_timestamp = error_now env\<rparr>],
                  res_timing := [(''data_validation'', stage_elapsed env ''data_validation'')]\<rparr>)"
  using assms by (simp add: orchestrator_defs)

lemma failure_in_quality_assessment:
  assumes "\<forall>label. report_progress env label = None"
    and "enable_enrichment (orch_config self)"
    and "validate_batch_call env providers = Inr svs"
    and "enrich_batch_call env providers = Inr enrichments"
    and "assess_batch_call env providers svs = Inl e"
  shows "snd (run_full_validation env self providers)
         = Inr (initial_results\<lparr>
                  res_enrichments := enrichments,
                  res_errors := [\<lparr>err_stage = Some ''quality_assessment'', err_error = exn_str e,
                                  err_timestamp = error_now env\<rparr>],
                  res_timing := [(''data_validation'', stage_elapsed env ''data_validation''),
                                 (''enrichment'', stage_elapsed env ''enrichment'')]\<rparr>)"
  using assms by (simp add: orchestrator_defs)

lemma failure_in_directory_management:
  assumes "\<forall>label. report_progress env label = None"
    and "enable_enrichment (orch_config self)"
    and "validate_batch_call env providers = Inr svs"
    and "enrich_batch_call env providers = Inr enrichments"
    and "assess_batch_call env providers svs = Inr vrs"
    and "process_batch_call env providers vrs = Inl e"
  shows "snd (run_full_validation env self providers)
         = Inr (initial_results\<lparr>
                  res_validation_results := vrs,
                  res_enrichments := enrichments,
                  res_errors := [\<lparr>err_stage = Some ''directory_management'', err_error = exn_str e,
                                  err_timestamp = error_now env\<rparr>],
                  res_timing := [(''data_validation'', stage_elapsed env ''data_validation''),
                                 (''enrichment'', stage_elapsed env ''enrichment''),
                                 (''quality_assessment'', stage_elapsed env ''quality_assessment'')]\<rparr>)"
  using assms by (simp add: orchestrator_defs)

text \<open>
  Claim C8, as amended. Provided the progress call made inside the \<open>except\<close> clause does
  not raise, \<open>run_full_validation\<close> returns its dictionary and leaves the object not
  running with no current stage. When an exception escapes a stage, the dictionary is
  the one the run had filled when the exception was raised, with one entry in its error
  list that holds the name of the current stage (one of the five stage names), the
  exception's message and the clock reading. The stages after the failing one do not
  run: when the callback never raises and the validation call raises, everything but
  the error list is as at the start; when the assessment call raises, only the
  enrichments and the timings of the first two stages are filled; when the directory
  call raises, the validation results are filled as well, and actions, report and
  providers are not.
\<close>

theorem run_full_validation_stage_failure:
  assumes "report_progress env ''Error'' = None"
  shows "\<exists>self' r.
      run_full_validation env self providers = (self', Inr r)
    \<and> \<not> is_running self' \<and> current_stage self' = None
    \<and> (\<forall>s e. try_block env providers (start_state env self) = (s, Some e) \<longrightarrow>
          r = (res s)\<lparr>res_errors := [\<lparr>err_stage = current_stage (orch s),
                                        err_error = exn_str e,
                                        err_timestamp = error_now env\<rparr>]\<rparr>
        \<and> current_stage (orch s) \<in> Some ` {''data_validation'', ''enrichment'',
             ''quality_assessment'', ''directory_management'', ''reporting''})
    \<and> (\<forall>s. try_block env providers (start_state env self) = (s, None) \<longrightarrow>
          r = res s \<and> res_errors r = [])
    \<and> ((\<forall>label. report_progress env label = None) \<longrightarrow>
        (\<forall>e. validate_batch_call env providers = Inl e \<longrightarrow>
           r = initial_results\<lparr>res_errors :=
                 [\<lparr>err_stage = Some ''data_validation'', err_error = exn_str e,
                   err_timestamp = error_now env\<rparr>]\<rparr>)
      \<and> (\<forall>svs enrichments e.
            enable_enrichment (orch_config self)
          \<and> validate_batch_call env providers = Inr svs
          \<and> enrich_batch_call env providers = Inr enrichments
          \<and> assess_batch_call env providers svs = Inl e \<longrightarrow>
           r = initial_results\<lparr>
                 res_enrichments := enrichments,
                 res_errors := [\<lparr>err_stage = Some ''quality_assessment'', err_error = exn_str e,
                                 err_timestamp = error_now env\<rparr>],
                 res_timing := [(''data_validation'', stage_elapsed env ''data_validation''),
                                (''enrichment'', stage_elapsed env ''enrichment'')]\<rparr>)
      \<and> (\<forall>svs enrichments vrs e.
            enable_enrichment (orch_config self)
          \<and> validate_batch_call env providers = Inr svs
          \<and> enrich_batch_call env providers = Inr enrichments
          \<and> assess_batch_call env providers svs = Inr vrs
          \<and> process_batch_call env providers vrs = Inl e \<longrightarrow>
           r = initial_results\<lparr>
                 res_validation_results := vrs,
                 res_enrichments := enrichments,
                 res_errors := [\<lparr>err_stage = Some ''directory_management'', err_error = exn_str e,
                                 err_timestamp = error_now env\<rparr>],
                 res_timing := [(''data_validation'', stage_elapsed env ''data_validation''),
                                (''enrichment'', stage_elapsed env ''enrichment''),
                                (''quality_assessment'', stage_elapsed env ''quality_assessment'')]\<rparr>))"
proof -
  obtain s x where tb: "try_block env providers (start_state env self) = (s, x)"
    by fastforce
  define self' where "self' = (orch s)\<lparr>is_running := False, current_stage := None\<rparr>"
  define r where "r = (case x of
      None \<Rightarrow> res s
    | Some e \<Rightarrow> (res s)\<lparr>res_errors := [\<lparr>err_stage = current_stage (orch s),
                                         err_error = exn_str e,
                                         err_timestamp = error_now env\<rparr>]\<rparr>)"
  have run: "run_full_validation env self providers = (self', Inr r)"
  proof (cases x)
    case None
    with tb run_full_validation_completed[of env providers self s] show ?thesis
      by (simp add: self'_def r_def)
  next
    case (Some e)
    with tb run_full_validation_raised[of env providers self s e] assms show ?thesis
      by (simp add: self'_def r_def)
  qed
  have fin: "\<not> is_running self' \<and> current_stage self' = None"
    by (simp add: self'_def)
  have raised: "\<forall>s' e. try_block env providers (start_state env self) = (s', Some e) \<longrightarrow>
          r = (res s')\<lparr>res_errors := [\<lparr>err_stage = current_stage (orch s'),
                                        err_error = exn_str e,
                                        err_timestamp = error_now env\<rparr>]\<rparr>
        \<and> current_stage (orch s') \<in> Some ` {''data_validation'', ''enrichment'',
             ''quality_assessment'', ''directory_management'', ''reporting''}"
    using tb try_block_effect[OF tb] by (auto simp: r_def)
  have completed: "\<forall>s'. try_block env providers (start_state env self) = (s', None) \<longrightarrow>
          r = res s' \<and> res_errors r = []"
    using tb run_full_validation_completed[of env providers self s] by (auto simp: r_def)
  have sndr: "snd (run_full_validation env self providers) = Inr r"
    by (simp add: run)
  have scen: "(\<forall>label. report_progress env label = None) \<longrightarrow>
        (\<forall>e. validate_batch_call env providers = Inl e \<longrightarrow>
           r = initial_results\<lparr>res_errors :=
                 [\<lparr>err_stage = Some ''data_validation'', err_error = exn_str e,
                   err_timestamp = error_now env\<rparr>]\<rparr>)
      \<and> (\<forall>svs enrichments e.
            enable_enrichment (orch_config self)
          \<and> validate_batch_call env providers = Inr svs
          \<and> enrich_batch_call env providers = Inr enrichments
          \<and> assess_batch_call env providers svs = Inl e \<longrightarrow>
           r = initial_results\<lparr>
                 res_enrichments := enrichments,
                 res_errors := [\<lparr>err_stage = Some ''quality_assessment'', err_error = exn_str e,
                                 err_timestamp = error_now env\<rparr>],
                 res_timing := [(''data_validation'', stage_elapsed env ''data_validation''),
                                (''enrichment'', stage_elapsed env ''enrichment'')]\<rparr>)
      \<and> (\<forall>svs enrichments vrs e.
            enable_enrichment (orch_config self)
          \<and> validate_batch_call env providers = Inr svs
          \<and> enrich_batch_call env providers = Inr enrichments
          \<and> assess_batch_call env providers svs = Inr vrs
          \<and> process_batch_call env providers vrs = Inl e \<longrightarrow>
           r = initial_results\<lparr>
                 res_validation_results := vrs,
                 res_enrichments := enrichments,
                 res_errors := [\<lparr>err_stage = Some ''directory_management'', err_error = exn_str e,
                                 err_timestamp = error_now env\<rparr>],
                 res_timing := [(''data_validation'', stage_elapsed env ''data_validation''),
                                (''enrichment'', stage_elapsed env ''enrichment''),
                                (''quality_assessment'', stage_elapsed env ''quality_assessment'')]\<rparr>)"
  proof (intro impI conjI allI)
    fix e
    assume "\<forall>label. report_progress env label = None" "validate_batch_call env providers = Inl e"
    from failure_in_data_validation[OF this, of self] sndr
    show "r = initial_results\<lparr>res_errors :=
                 [\<lparr>err_stage = Some ''data_validation'', err_error = exn_str e,
                   err_timestamp = error_now env\<rparr>]\<rparr>"
      by simp
  next
    fix svs enrichments e
    assume q: "\<forall>label. report_progress env label = None"
      and h: "enable_enrichment (orch_config self)
          \<and> validate_batch_call env providers = Inr svs
          \<and> enrich_batch_call env providers = Inr enrichments
          \<and> assess_batch_call env providers svs = Inl e"
    from failure_in_quality_assessment[OF q, of self providers svs enrichments e] h sndr
    show "r = initial_results\<lparr>
                 res_enrichments := enrichments,
                 res_errors := [\<lparr>err_stage = Some ''quality_assessment'', err_error = exn_str e,
                                 err_timestamp = error_now env\<rparr>],
                 res_timing := [(''data_validation'', stage_elapsed env ''data_validation''),
                                (''enrichment'', stage_elapsed env ''enrichment'')]\<rparr>"
      by simp
  next
    fix svs enrichments vrs e
    assume q: "\<forall>label. report_progress env label = None"
      and h: "enable_enrichment (orch_config self)
          \<and> validate_batch_call env providers = Inr svs
          \<and> enrich_batch_call env providers = Inr enrichments
          \<and> assess_batch_call env providers svs = Inr vrs
          \<and> process_batch_call env providers vrs = Inl e"
    from failure_in_directory_management[OF q, of self providers svs enrichments vrs e] h sndr
    show "r = initial_results\<lparr>
                 res_validation_results := vrs,
                 res_enrichments := enrichments,
                 res_errors := [\<lparr>err_stage = Some ''directory_management'', err_error = exn_str e,
                                 err_timestamp = error_now env\<rparr>],
                 res_timing := [(''data_validation'', stage_elapsed env ''data_validation''),
                                (''enrichment'', stage_elapsed env ''enrichment''),
                                (''quality_assessment'', stage_elapsed env ''quality_assessment'')]\<rparr>"
      by simp
  qed
  from run fin raised completed scen show ?thesis
    by blast
qed

text \<open>
  Without the proviso the claim fails: when the validation stage raises and the callback
  raises on the label \<open>Error\<close>, the callback's exception leaves \<open>run_full_validation\<close>
  and no dictionary is returned.
\<close>

theorem run_full_validation_escape_counterexample:
  "validate_batch_call ex_env_error_report_raises [ex_provider] = Inl (Exception ''registry unreachable'')
   \<and> run_full_validation ex_env_error_report_raises ex_orchestrator [ex_provider]
       = (ex_orchestrator\<lparr>start_time := Some 0\<rparr>, Inl (Exception ''unknown stage''))"
  by (simp add: orchestrator_defs ex_env_error_report_raises_def ex_orchestrator_def)

theorem run_full_validation_stage_failure_witness:
  "report_progress ex_env_assess_fails ''Error'' = None
   \<and> snd (run_full_validation ex_env_assess_fails ex_orchestrator [ex_provider])
       = Inr (initial_results\<lparr>
                 res_enrichments := [(''p1'', ''enriched'')],
                 res_errors := [\<lparr>err_stage = Some ''quality_assessment'',
                                 err_error = ''scoring failed'', err_timestamp = 7\<rparr>],
                 res_timing := [(''data_validation'', 1), (''enrichment'', 1)]\<rparr>)"
proof -
  have q: "\<forall>label. report_progress ex_env_assess_fails label = None"
    by (simp add: ex_env_assess_fails_def)
  then have q': "report_progress ex_env_assess_fails ''Error'' = None"
    by simp
  have h: "enable_enrichment (orch_config ex_orchestrator)
          \<and> validate_batch_call ex_env_assess_fails [ex_provider] = Inr []
          \<and> enrich_batch_call ex_env_assess_fails [ex_provider] = Inr [(''p1'', ''enriched'')]
          \<and> assess_batch_call ex_env_assess_fails [ex_provider] [] = Inl (Exception ''scoring failed'')"
    by (simp add: ex_env_assess_fails_def ex_orchestrator_def)
  from run_full_validation_stage_failure[OF q', of ex_orchestrator "[ex_provider]"]
  obtain self' r where
    run: "run_full_validation ex_env_assess_fails ex_orchestrator [ex_provider] = (self', Inr r)"
    and scen: "(\<forall>label. report_progress ex_env_assess_fails label = None) \<longrightarrow>
      (\<forall>svs enrichments e.
            enable_enrichment (orch_config ex_orchestrator)
          \<and> validate_batch_call ex_env_assess_fails [ex_provider] = Inr svs
          \<and> enrich_batch_call ex_env_assess_fails [ex_provider] = Inr enrichments
          \<and> assess_batch_call ex_env_assess_fails [ex_provider] svs = Inl e \<longrightarrow>
           r = initial_results\<lparr>
                 res_enrichments := enrichments,
                 res_errors := [\<lparr>err_stage = Some ''quality_assessment'', err_error = exn_str e,
                                 err_timestamp = error_now ex_env_assess_fails\<rparr>],
                 res_timing := [(''data_validation'', stage_elapsed ex_env_assess_fails ''data_validation''),
                                (''enrichment'', stage_elapsed ex_env_assess_fails ''enrichment'')]\<rparr>)"
    by blast
  from scen q h have "r = initial_results\<lparr>
                 res_enrichments := [(''p1'', ''enriched'')],
                 res_errors := [\<lparr>err_stage = Some ''quality_assessment'',
                                 err_error = exn_str (Exception ''scoring failed''),
                                 err_timestamp = error_now ex_env_assess_fails\<rparr>],
                 res_timing := [(''data_validation'', stage_elapsed ex_env_assess_fails ''data_validation''),
                                (''enrichment'', stage_elapsed ex_env_assess_fails ''enrichment'')]\<rparr>"
    by blast
  then show ?thesis
    using run q' by (simp add: ex_env_assess_fails_def)
qed

end
